theory Spec2Isabelle
  imports Main "HOL-Library.Word" "HOL-Library.Sublist"
begin

section \<open>Outcomes of a call\<close>

text \<open>
  The trace stream code leaves a function in five ways besides returning: \<open>FATAL()\<close>
  (a logged message, then abort), \<open>exit(status)\<close> after a message on stderr, a failed
  \<open>assert\<close>, a read that runs past the end of a binary substream (the value read is
  then not defined), and an exception of the message decoder that nothing catches. Each
  is a value of \<open>failure\<close>; a call returns \<open>Inr\<close> of its result or \<open>Inl\<close> of the
  failure.
\<close>

datatype failure =
  FATAL string
| EXIT_PROCESS int string
| ASSERT string
| READ_PAST_END
| UNCAUGHT_IOException

section \<open>Directory bootstrap\<close>

text \<open>
  The process environment is the list of its \<open>NAME=value\<close> entries, \<open>getenv\<close> the
  lookup in it. The file system appears only through \<open>stat\<close>: \<open>fs\<close> is the set of
  paths on which \<open>stat\<close> succeeds.
\<close>

type_synonym environ = "(string \<times> string) list"

definition getenv :: "environ \<Rightarrow> string \<Rightarrow> string option" where
  "getenv env name = map_of env name"

definition dir_exists :: "string set \<Rightarrow> string \<Rightarrow> bool" where
  "dir_exists fs dir = (dir \<noteq> [] \<and> dir \<in> fs)"

text \<open>
  \<open>default_rr_trace_dir\<close> keeps its answer in a function-local static string. The
  model takes the static's value and returns the answer with the static's new value.
\<close>

definition default_rr_trace_dir :: "environ \<Rightarrow> string set \<Rightarrow> string \<Rightarrow> string \<times> string" where
  "default_rr_trace_dir env fs cached_dir =
     (if cached_dir \<noteq> [] then (cached_dir, cached_dir)
      else
        let home = getenv env ''HOME'';
            dot_dir = (case home of Some h \<Rightarrow> h @ ''/.rr'' | None \<Rightarrow> []);
            xdg_data_home = getenv env ''XDG_DATA_HOME'';
            xdg_dir = (case xdg_data_home of
                         Some x \<Rightarrow> x @ ''/rr''
                       | None \<Rightarrow> (case home of Some h \<Rightarrow> h @ ''/.local/share/rr'' | None \<Rightarrow> []));
            d = (if dir_exists fs xdg_dir then xdg_dir
                 else if dir_exists fs dot_dir then dot_dir
                 else if xdg_dir \<noteq> [] then xdg_dir
                 else ''/tmp/rr'')
        in (d, d))"

definition trace_save_dir :: "environ \<Rightarrow> string set \<Rightarrow> string \<Rightarrow> string \<times> string" where
  "trace_save_dir env fs cached_dir =
     (case getenv env ''_RR_TRACE_DIR'' of
        Some output_dir \<Rightarrow> (output_dir, cached_dir)
      | None \<Rightarrow> default_rr_trace_dir env fs cached_dir)"

definition latest_trace_symlink :: "environ \<Rightarrow> string set \<Rightarrow> string \<Rightarrow> string \<times> string" where
  "latest_trace_symlink env fs cached_dir =
     (case trace_save_dir env fs cached_dir of (d, c) \<Rightarrow> (d @ ''/latest-trace'', c))"

text \<open>
  The resolution order as the specification words it (section 4.6): the second step looks
  at \<open>$XDG_DATA_HOME/rr\<close> only, the fourth step brings in \<open>$HOME/.local/share/rr\<close>.
\<close>

definition spec_trace_root :: "environ \<Rightarrow> string set \<Rightarrow> string" where
  "spec_trace_root env fs =
     (case getenv env ''_RR_TRACE_DIR'' of
        Some d \<Rightarrow> d
      | None \<Rightarrow>
          if (case getenv env ''XDG_DATA_HOME'' of Some x \<Rightarrow> x @ ''/rr'' \<in> fs | None \<Rightarrow> False)
            then the (getenv env ''XDG_DATA_HOME'') @ ''/rr''
          else if (case getenv env ''HOME'' of Some h \<Rightarrow> h @ ''/.rr'' \<in> fs | None \<Rightarrow> False)
            then the (getenv env ''HOME'') @ ''/.rr''
          else (case getenv env ''XDG_DATA_HOME'' of
                  Some x \<Rightarrow> x @ ''/rr''
                | None \<Rightarrow> (case getenv env ''HOME'' of
                             Some h \<Rightarrow> h @ ''/.local/share/rr''
                           | None \<Rightarrow> ''/tmp/rr'')))"

text \<open>
  The order the code follows: the XDG directory is \<open>$XDG_DATA_HOME/rr\<close> when
  \<open>XDG_DATA_HOME\<close> is set and \<open>$HOME/.local/share/rr\<close> when only \<open>HOME\<close> is, and it
  is this directory whose existence is tested first.
\<close>

definition xdg_candidate :: "environ \<Rightarrow> string option" where
  "xdg_candidate env =
     (case getenv env ''XDG_DATA_HOME'' of
        Some x \<Rightarrow> Some (x @ ''/rr'')
      | None \<Rightarrow> (case getenv env ''HOME'' of
                   Some h \<Rightarrow> Some (h @ ''/.local/share/rr'')
                 | None \<Rightarrow> None))"

definition dot_candidate :: "environ \<Rightarrow> string option" where
  "dot_candidate env = (case getenv env ''HOME'' of Some h \<Rightarrow> Some (h @ ''/.rr'') | None \<Rightarrow> None)"

definition amended_trace_root :: "environ \<Rightarrow> string set \<Rightarrow> string" where
  "amended_trace_root env fs =
     (case getenv env ''_RR_TRACE_DIR'' of
        Some d \<Rightarrow> d
      | None \<Rightarrow>
          (case xdg_candidate env of
             Some x \<Rightarrow>
               if x \<in> fs then x
               else (case dot_candidate env of
                       Some d \<Rightarrow> if d \<in> fs then d else x
                     | None \<Rightarrow> x)
           | None \<Rightarrow> ''/tmp/rr''))"

section \<open>Bytes, scalars and outcomes in sequence\<close>

type_synonym byte = "8 word"

text \<open>
  \<open>operator<<\<close> and \<open>operator>>\<close> of the compressed streams copy the
  \<open>sizeof(T)\<close> bytes of a value in the host's layout; on the hosts the recorder
  runs on (x86, x86-64) a scalar is stored least significant byte first.
\<close>

fun le_bytes :: "nat \<Rightarrow> nat \<Rightarrow> byte list" where
  "le_bytes 0 v = []"
| "le_bytes (Suc n) v = of_nat (v mod 256) # le_bytes n (v div 256)"

fun le_val :: "byte list \<Rightarrow> nat" where
  "le_val [] = 0"
| "le_val (b # bs) = unat b + 256 * le_val bs"

definition to_bytes :: "'a::len word \<Rightarrow> byte list" where
  "to_bytes w = le_bytes (LENGTH('a) div 8) (unat w)"

definition from_bytes :: "byte list \<Rightarrow> 'a::len word" where
  "from_bytes bs = of_nat (le_val bs)"

text \<open>Decimal output of \<open>printf\<close> (\<open>%d\<close>, \<open>%ld\<close>) and of stream insertion.\<close>

definition digit_char :: "nat \<Rightarrow> char" where
  "digit_char d = char_of (48 + d)"

fun show_nat :: "nat \<Rightarrow> string" where
  "show_nat n = (if n < 10 then [digit_char n] else show_nat (n div 10) @ [digit_char (n mod 10)])"

definition show_int :: "int \<Rightarrow> string" where
  "show_int i = (if i < 0 then CHR ''-'' # show_nat (nat (- i)) else show_nat (nat i))"

definition and_then :: "failure + 'a \<Rightarrow> ('a \<Rightarrow> failure + 'b) \<Rightarrow> failure + 'b" where
  "and_then m f = (case m of Inl e \<Rightarrow> Inl e | Inr x \<Rightarrow> f x)"

section \<open>The compressed substreams\<close>

text \<open>
  Modelled from the spec: \<open>CompressedReader\<close> and \<open>CompressedWriter\<close> are classes of
  the repository whose sources are not at hand. The specification treats the codec as a
  substitutable collaborator: a writer takes bytes in order and reports failure through
  \<open>good()\<close>; a reader gives the same bytes back in order, knows when it is at the end,
  and has an explicit checkpoint and rollback of its cursor (\<open>save_state\<close>,
  \<open>restore_state\<close>, \<open>discard_state\<close>). A substream is the list of its elements: bytes
  for the binary substreams, whole messages for the structured ones.
\<close>

record 'a CompressedWriter =
  cw_data :: "'a list"
  cw_error :: bool

definition cw_write :: "'a list \<Rightarrow> 'a CompressedWriter \<Rightarrow> 'a CompressedWriter" where
  "cw_write xs w = (if cw_error w then w else w\<lparr>cw_data := cw_data w @ xs\<rparr>)"

definition cw_good :: "'a CompressedWriter \<Rightarrow> bool" where
  "cw_good w = (\<not> cw_error w)"

record 'a CompressedReader =
  cr_data :: "'a list"
  cr_pos :: nat
  cr_saved :: "nat option"

definition cr_open :: "'a list \<Rightarrow> 'a CompressedReader" where
  "cr_open xs = \<lparr>cr_data = xs, cr_pos = 0, cr_saved = None\<rparr>"

text \<open>
  \<open>remaining r\<close> is what a reader has not yet consumed, \<open>advance n r\<close> the reader with
  its cursor \<open>n\<close> elements further.
\<close>

definition remaining :: "'a CompressedReader \<Rightarrow> 'a list" where
  "remaining r = drop (cr_pos r) (cr_data r)"

definition advance :: "nat \<Rightarrow> 'a CompressedReader \<Rightarrow> 'a CompressedReader" where
  "advance n r = r\<lparr>cr_pos := cr_pos r + n\<rparr>"

definition cr_at_end :: "'a CompressedReader \<Rightarrow> bool" where
  "cr_at_end r = (remaining r = [])"

text \<open>
  A read of \<open>n\<close> elements past the end fails in the reader and leaves the destination
  without the elements asked for; the callers in TraceStream.cc do not test the result,
  so what they go on with is not defined. The model stops there with \<open>READ_PAST_END\<close>.
\<close>

definition cr_read :: "nat \<Rightarrow> 'a CompressedReader \<Rightarrow> failure + ('a list \<times> 'a CompressedReader)" where
  "cr_read n r =
     (if n \<le> length (remaining r) then Inr (take n (remaining r), advance n r)
      else Inl READ_PAST_END)"

definition save_state :: "'a CompressedReader \<Rightarrow> 'a CompressedReader" where
  "save_state r = r\<lparr>cr_saved := Some (cr_pos r)\<rparr>"

definition restore_state :: "'a CompressedReader \<Rightarrow> 'a CompressedReader" where
  "restore_state r = (case cr_saved r of Some p \<Rightarrow> r\<lparr>cr_pos := p, cr_saved := None\<rparr> | None \<Rightarrow> r)"


definition cr_rewind :: "'a CompressedReader \<Rightarrow> 'a CompressedReader" where
  "cr_rewind r = r\<lparr>cr_pos := 0\<rparr>"

text \<open>\<open>operator>>\<close> for a scalar of \<open>LENGTH('a) div 8\<close> bytes.\<close>

definition read_scalar :: "byte CompressedReader \<Rightarrow> failure + ('a::len word \<times> byte CompressedReader)" where
  "read_scalar r =
     and_then (cr_read (LENGTH('a) div 8) r) (\<lambda>(bs, r'). Inr (from_bytes bs, r'))"


section \<open>Frames\<close>

text \<open>
  The classes \<open>TraceFrame\<close>, \<open>Event\<close>, \<open>Registers\<close> and \<open>ExtraRegisters\<close> are
  declared in headers that are not at hand; they are modelled from the specification's data
  model and from the way TraceStream.cc uses them.
  \<^item> \<open>SupportedArch\<close> has the enumerators \<open>x86\<close> and \<open>x86_64\<close>, written to the trace
    as one \<open>char\<close> (0 and 1, in declaration order).
  \<^item> \<open>Registers\<close> is an architecture and the raw \<open>user_regs_struct\<close> block that
    \<open>get_ptrace_for_self_arch\<close> hands out and \<open>set_from_ptrace_for_arch\<close> takes in
    (68 bytes on x86, 216 bytes on x86-64).
  \<^item> \<open>ExtraRegisters\<close> is a format tag (\<open>NONE\<close> is 0), an architecture and the raw
    data bytes.
  \<^item> An \<open>Event\<close> is kept in its encoded form (\<open>EncodedEvent\<close>, the size of an
    \<open>int\<close>), so \<open>Event(e).encode()\<close> is \<open>e\<close>; what \<open>has_exec_info()\<close> and
    \<open>arch()\<close> read out of it is a parameter (\<open>externals\<close> below).
  \<^item> \<open>monotonic_sec\<close> is a \<open>double\<close> that is only copied: it is kept as its 64 bits.
\<close>

datatype SupportedArch = x86 | x86_64

definition arch_char :: "SupportedArch \<Rightarrow> byte" where
  "arch_char a = (case a of x86 \<Rightarrow> 0 | x86_64 \<Rightarrow> 1)"

definition arch_of_char :: "byte \<Rightarrow> SupportedArch option" where
  "arch_of_char c = (if c = 0 then Some x86 else if c = 1 then Some x86_64 else None)"

definition user_regs_size :: "SupportedArch \<Rightarrow> nat" where
  "user_regs_size a = (case a of x86 \<Rightarrow> 68 | x86_64 \<Rightarrow> 216)"

record Registers =
  regs_arch :: SupportedArch
  regs_ptrace :: "byte list"

definition format_NONE :: byte where
  "format_NONE = 0"

record ExtraRegisters =
  er_format :: byte
  er_arch :: SupportedArch
  er_data :: "byte list"

text \<open>\<open>Registers()\<close> and \<open>ExtraRegisters(arch)\<close>, the values a frame holds before exec info is read.\<close>

definition Registers_default :: Registers where
  "Registers_default = \<lparr>regs_arch = x86, regs_ptrace = replicate 68 0\<rparr>"

definition ExtraRegisters_empty :: "SupportedArch \<Rightarrow> ExtraRegisters" where
  "ExtraRegisters_empty a = \<lparr>er_format = format_NONE, er_arch = a, er_data = []\<rparr>"

type_synonym FrameTime = "64 word"
type_synonym EncodedEvent = "32 word"
type_synonym XSaveLayout = "nat list"

record TraceFrame =
  frame_time :: FrameTime
  frame_tid :: "32 word"
  frame_event :: EncodedEvent
  frame_ticks :: "64 word"
  frame_monotonic_sec :: "64 word"
  recorded_regs :: Registers
  recorded_extra_regs :: ExtraRegisters

text \<open>The five-argument constructor of \<open>TraceFrame\<close>, and the default one.\<close>

definition TraceFrame_make :: "FrameTime \<Rightarrow> 32 word \<Rightarrow> EncodedEvent \<Rightarrow> 64 word \<Rightarrow> 64 word \<Rightarrow> TraceFrame" where
  "TraceFrame_make t tid e ticks msec =
     \<lparr>frame_time = t, frame_tid = tid, frame_event = e, frame_ticks = ticks,
      frame_monotonic_sec = msec, recorded_regs = Registers_default,
      recorded_extra_regs = ExtraRegisters_empty x86\<rparr>"

definition TraceFrame_default :: TraceFrame where
  "TraceFrame_default = TraceFrame_make 0 0 0 0 0"

record BasicInfo =
  bi_global_time :: FrameTime
  bi_tid :: "32 word"
  bi_ev :: EncodedEvent
  bi_ticks :: "64 word"
  bi_monotonic_sec :: "64 word"

text \<open>
  \<open>sizeof(BasicInfo)\<close>: 8 + 4 + 4 + 8 + 8 bytes, no padding; the writer clears the
  struct before filling it.
\<close>

definition sizeof_BasicInfo :: nat where
  "sizeof_BasicInfo = 32"

definition BasicInfo_bytes :: "BasicInfo \<Rightarrow> byte list" where
  "BasicInfo_bytes b =
     to_bytes (bi_global_time b) @ to_bytes (bi_tid b) @ to_bytes (bi_ev b) @
     to_bytes (bi_ticks b) @ to_bytes (bi_monotonic_sec b)"

definition BasicInfo_of_bytes :: "byte list \<Rightarrow> BasicInfo" where
  "BasicInfo_of_bytes bs =
     \<lparr>bi_global_time = from_bytes (take 8 bs),
      bi_tid = from_bytes (take 4 (drop 8 bs)),
      bi_ev = from_bytes (take 4 (drop 12 bs)),
      bi_ticks = from_bytes (take 8 (drop 16 bs)),
      bi_monotonic_sec = from_bytes (take 8 (drop 24 bs))\<rparr>"

text \<open>
  Code of the repository outside TraceStream.cc that the frame functions call, taken as
  parameters: \<open>Event::has_exec_info\<close>, \<open>Event::arch\<close>,
  \<open>ExtraRegisters::set_to_raw_data\<close> (\<open>None\<close> when it returns false, otherwise the
  registers it has set) and \<open>xsave_layout_from_trace\<close> on the recorded CPUID bytes.
\<close>

record externals =
  has_exec_info :: "EncodedEvent \<Rightarrow> bool"
  event_arch :: "EncodedEvent \<Rightarrow> SupportedArch"
  set_to_raw_data :: "SupportedArch \<Rightarrow> byte \<Rightarrow> byte list \<Rightarrow> XSaveLayout \<Rightarrow> ExtraRegisters option"
  xsave_layout_from_trace :: "byte list \<Rightarrow> XSaveLayout"

section \<open>Structured records\<close>

text \<open>
  The \<open>MMAPS\<close> and \<open>TASKS\<close> substreams hold messages of the packed structural
  encoding, an external library; a message is the record of its fields, as the
  specification lists them (section 6). The schema file is not at hand: a field has the
  width of the value TraceStream.cc stores in it. A \<open>Data\<close> field and a
  \<open>std::string\<close> are both byte sequences, so \<open>str_to_data\<close> and \<open>data_to_str\<close>
  change nothing.
\<close>

type_synonym Data = string

definition str_to_data :: "string \<Rightarrow> Data" where
  "str_to_data str = str"


datatype TaskEventWhich =
  Clone_msg "32 word" "32 word" "64 word"
| Exec_msg Data "Data list"
| Exit_msg "32 word"

record TaskEventMsg =
  te_frameTime :: FrameTime
  te_tid :: "32 word"
  te_which :: TaskEventWhich

text \<open>
  \<open>TraceTaskEvent\<close> (its header is not at hand), after the specification: a union
  over clone (parent tid, own-namespace tid, flags), exec (file name, command line) and
  exit (status), with the tid; \<open>NONE\<close> is the type of a default-constructed event.
\<close>

datatype TaskEventPayload =
  NONE
| CLONE "32 word" "32 word" "64 word"
| EXEC string "string list"
| EXIT "32 word"

record TraceTaskEvent =
  tte_tid :: "32 word"
  tte_payload :: TaskEventPayload


record KernelMapping =
  km_start :: "64 word"
  km_end :: "64 word"
  km_fsname :: string
  km_device :: "64 word"
  km_inode :: "64 word"
  km_prot :: "32 word"
  km_flags :: "32 word"
  km_file_offset_bytes :: "64 word"


record stat =
  st_dev :: "64 word"
  st_ino :: "64 word"
  st_mode :: "32 word"
  st_uid :: "32 word"
  st_gid :: "32 word"
  st_size :: "64 word"
  st_mtime :: "64 word"

datatype MMapSource = Zero | Trace | File Data

record MMapMsg =
  mm_frameTime :: FrameTime
  mm_start :: "64 word"
  mm_end :: "64 word"
  mm_fsname :: Data
  mm_device :: "64 word"
  mm_inode :: "64 word"
  mm_prot :: "32 word"
  mm_flags :: "32 word"
  mm_fileOffsetBytes :: "64 word"
  mm_statMode :: "32 word"
  mm_statUid :: "32 word"
  mm_statGid :: "32 word"
  mm_statSize :: "64 word"
  mm_statMTime :: "64 word"
  mm_source :: MMapSource

datatype MappingOrigin =
  SYSCALL_MAPPING | EXEC_MAPPING | PATCH_MAPPING | REMAP_MAPPING | RR_BUFFER_MAPPING

datatype RecordInTrace = DONT_RECORD_IN_TRACE | RECORD_IN_TRACE

datatype ValidateSourceFile = VALIDATE | DONT_VALIDATE




record RawData =
  rd_data :: "byte list"
  rd_addr :: "64 word"
  rd_rec_tid :: "32 word"

text \<open>
  What \<open>write_mapped_region\<close> and \<open>read_mapped_region\<close> ask of the session, of
  \<open>should_copy_mmap_region\<close> (util.cc, not at hand) and of the operating system, as
  parameters: whether the session uses file cloning, whether a file opens read-only,
  whether a destination is created by \<open>O_CREAT|O_EXCL\<close>, whether the clone
  \<open>ioctl\<close> on (destination, source) and \<open>link\<close> on (old, new) succeed, and what
  \<open>stat\<close> gives for a path. The files these calls create are outside the model.
\<close>

record mapping_env =
  use_file_cloning :: bool
  open_rdonly :: "string \<Rightarrow> bool"
  open_creat_excl :: "string \<Rightarrow> bool"
  ioctl_clone :: "string \<Rightarrow> string \<Rightarrow> bool"
  link_ok :: "string \<Rightarrow> string \<Rightarrow> bool"
  should_copy_mmap_region :: "KernelMapping \<Rightarrow> stat \<Rightarrow> bool"
  stat_file :: "string \<Rightarrow> stat option"

definition MAP_PRIVATE :: "32 word" where
  "MAP_PRIVATE = 2"

section \<open>TraceStream, TraceWriter, TraceReader\<close>

record TraceStream =
  trace_dir :: string
  global_time :: FrameTime

definition tick_time :: "'a TraceStream_scheme \<Rightarrow> 'a TraceStream_scheme" where
  "tick_time s = s\<lparr>global_time := global_time s + 1\<rparr>"

definition version_path :: "'a TraceStream_scheme \<Rightarrow> string" where
  "version_path s = trace_dir s @ ''/version''"

record TraceWriter = TraceStream +
  w_events :: "byte CompressedWriter"
  w_data_header :: "byte CompressedWriter"
  w_data :: "byte CompressedWriter"
  w_mmaps :: "MMapMsg CompressedWriter"
  w_tasks :: "TaskEventMsg CompressedWriter"
  w_generic :: "byte CompressedWriter"
  mmap_count :: "32 word"
  supports_file_data_cloning :: bool
  files_assumed_immutable :: "(64 word \<times> 64 word) set"

record TraceReader = TraceStream +
  r_events :: "byte CompressedReader"
  r_data_header :: "byte CompressedReader"
  r_data :: "byte CompressedReader"
  r_mmaps :: "MMapMsg CompressedReader"
  r_tasks :: "TaskEventMsg CompressedReader"
  r_generic :: "byte CompressedReader"
  bind_to_cpu :: "32 word"
  trace_uses_cpuid_faulting :: bool
  cpuid_records :: "byte list"

subsection \<open>Frames\<close>

text \<open>
  \<open>extra_regs().data_size()\<close> is converted to \<open>int\<close>; \<open>events.write(p, n)\<close> with
  \<open>n = extra_reg_bytes\<close> writes the first \<open>n\<close> bytes of the data.
\<close>

definition write_frame :: "externals \<Rightarrow> TraceFrame \<Rightarrow> TraceWriter \<Rightarrow> failure + TraceWriter" where
  "write_frame X frame w =
     (let basic_info = \<lparr>bi_global_time = frame_time frame, bi_tid = frame_tid frame,
                         bi_ev = frame_event frame, bi_ticks = frame_ticks frame,
                         bi_monotonic_sec = frame_monotonic_sec frame\<rparr>;
          events = cw_write (BasicInfo_bytes basic_info) (w_events w)
      in if \<not> cw_good events
         then Inl (FATAL ''Tried to save 32 bytes to the trace, but failed'')
         else if has_exec_info X (frame_event frame) then
           let events = cw_write [arch_char (regs_arch (recorded_regs frame))] events;
               events = cw_write (regs_ptrace (recorded_regs frame)) events
           in if \<not> cw_good events
              then Inl (FATAL ''Tried to save registers to the trace, but failed'')
              else
                let extra_reg_bytes = (of_nat (length (er_data (recorded_extra_regs frame))) :: 32 word);
                    extra_reg_format = er_format (recorded_extra_regs frame);
                    events = cw_write (extra_reg_format # to_bytes extra_reg_bytes) events
                in if \<not> cw_good events
                   then Inl (FATAL ''Tried to save 5 bytes to the trace, but failed'')
                   else if 0 <s extra_reg_bytes then
                     let events = cw_write (take (unat extra_reg_bytes)
                                              (er_data (recorded_extra_regs frame))) events
                     in if \<not> cw_good events
                        then Inl (FATAL (''Tried to save '' @ show_int (sint extra_reg_bytes) @
                                         '' bytes to the trace, but failed''))
                        else Inr (tick_time (w\<lparr>w_events := events\<rparr>))
                   else Inr (tick_time (w\<lparr>w_events := events\<rparr>))
         else Inr (tick_time (w\<lparr>w_events := events\<rparr>)))"

definition read_frame :: "externals \<Rightarrow> TraceReader \<Rightarrow> failure + (TraceFrame \<times> TraceReader)" where
  "read_frame X s =
     and_then (cr_read sizeof_BasicInfo (r_events s)) (\<lambda>(bs, events).
       let basic_info = BasicInfo_of_bytes bs;
           frame = TraceFrame_make (bi_global_time basic_info) (bi_tid basic_info)
                     (bi_ev basic_info) (bi_ticks basic_info) (bi_monotonic_sec basic_info)
       in and_then
            (if has_exec_info X (frame_event frame) then
               and_then (read_scalar events) (\<lambda>(a :: byte, events).
                 case arch_of_char a of
                   None \<Rightarrow> Inl (FATAL ''Unknown arch'')
                 | Some arch \<Rightarrow>
                     and_then (cr_read (user_regs_size arch) events) (\<lambda>(buf, events).
                       let frame = frame\<lparr>recorded_regs := \<lparr>regs_arch = arch, regs_ptrace = buf\<rparr>\<rparr>
                       in and_then (read_scalar events) (\<lambda>(extra_reg_format :: byte, events).
                            and_then (read_scalar events) (\<lambda>(extra_reg_bytes :: 32 word, events).
                              if 0 <s extra_reg_bytes then
                                and_then (cr_read (unat extra_reg_bytes) events) (\<lambda>(data, events).
                                  case set_to_raw_data X (event_arch X (frame_event frame))
                                         extra_reg_format data
                                         (xsave_layout_from_trace X (cpuid_records s)) of
                                    None \<Rightarrow> Inl (FATAL ''Invalid XSAVE data in trace'')
                                  | Some er \<Rightarrow> Inr (frame\<lparr>recorded_extra_regs := er\<rparr>, events))
                              else if extra_reg_format \<noteq> format_NONE
                                then Inl (ASSERT ''extra_reg_format == ExtraRegisters::NONE'')
                              else Inr (frame\<lparr>recorded_extra_regs :=
                                                 ExtraRegisters_empty (event_arch X (frame_event frame))\<rparr>,
                                        events)))))
             else Inr (frame, events))
            (\<lambda>(frame, events).
               let s' = tick_time (s\<lparr>r_events := events\<rparr>)
               in if global_time s' \<noteq> frame_time frame
                  then Inl (ASSERT ''time() == frame.time()'')
                  else Inr (frame, s')))"

text \<open>\<open>TraceReader::at_end\<close> (declared in the header): the \<open>EVENTS\<close> substream is exhausted.\<close>

definition at_end :: "TraceReader \<Rightarrow> bool" where
  "at_end s = cr_at_end (r_events s)"

definition peek_frame :: "externals \<Rightarrow> TraceReader \<Rightarrow> failure + (TraceFrame \<times> TraceReader)" where
  "peek_frame X s =
     (let s1 = s\<lparr>r_events := save_state (r_events s)\<rparr>;
          saved_time = global_time s1
      in and_then
           (if \<not> at_end s1 then read_frame X s1 else Inr (TraceFrame_default, s1))
           (\<lambda>(frame, s2).
              let s3 = s2\<lparr>r_events := restore_state (r_events s2)\<rparr>
              in Inr (frame, s3\<lparr>global_time := saved_time\<rparr>)))"

definition rewind :: "TraceReader \<Rightarrow> TraceReader" where
  "rewind s =
     s\<lparr>r_events := cr_rewind (r_events s), r_data_header := cr_rewind (r_data_header s),
       r_data := cr_rewind (r_data s), r_mmaps := cr_rewind (r_mmaps s),
       r_tasks := cr_rewind (r_tasks s), r_generic := cr_rewind (r_generic s),
       global_time := 0\<rparr>"

subsection \<open>Task events\<close>

definition write_task_event :: "TraceTaskEvent \<Rightarrow> TraceWriter \<Rightarrow> failure + TraceWriter" where
  "write_task_event event w =
     (let emit = (\<lambda>which. Inr (w\<lparr>w_tasks :=
                    cw_write [\<lparr>te_frameTime = global_time w, te_tid = tte_tid event,
                               te_which = which\<rparr>] (w_tasks w)\<rparr>))
      in case tte_payload event of
           CLONE parent_tid own_ns_tid clone_flags \<Rightarrow> emit (Clone_msg parent_tid own_ns_tid clone_flags)
         | EXEC file_name cmd_line \<Rightarrow> emit (Exec_msg (str_to_data file_name) (map str_to_data cmd_line))
         | EXIT exit_status \<Rightarrow> emit (Exit_msg exit_status)
         | NONE \<Rightarrow> Inl (ASSERT ''0 && Writing NONE TraceTaskEvent''))"



subsection \<open>Mapped regions\<close>

definition base_file_name :: "string \<Rightarrow> string" where
  "base_file_name file_name =
     (if CHR ''/'' \<in> set file_name
      then rev (takeWhile (\<lambda>c. c \<noteq> CHR ''/'') (rev file_name))
      else file_name)"

definition try_hardlink_file :: "mapping_env \<Rightarrow> TraceWriter \<Rightarrow> string \<Rightarrow> string" where
  "try_hardlink_file E w file_name =
     (let count_str = show_int (sint (mmap_count w));
          path = ''mmap_hardlink_'' @ count_str @ ''_'' @ base_file_name file_name
      in if \<not> link_ok E file_name (trace_dir w @ ''/'' @ path) then file_name else path)"

text \<open>\<open>try_clone_file\<close> returns \<open>Some new_name\<close> where the code returns true.\<close>

definition try_clone_file :: "mapping_env \<Rightarrow> TraceWriter \<Rightarrow> string \<Rightarrow> string option" where
  "try_clone_file E w file_name =
     (if \<not> use_file_cloning E then None
      else
        let count_str = show_int (sint (mmap_count w));
            path = ''mmap_clone_'' @ count_str @ ''_'' @ base_file_name file_name
        in if \<not> open_rdonly E file_name then None
           else
             let dest_path = trace_dir w @ ''/'' @ path
             in if \<not> open_creat_excl E dest_path then None
                else if \<not> ioctl_clone E dest_path file_name then None
                else Some path)"

text \<open>
  The chain of conditions in \<open>write_mapped_region\<close> that sets the source of the record
  and, in its last branch, adds to \<open>files_assumed_immutable\<close>: the result is the
  source and the set afterwards.
\<close>

definition mapping_source ::
  "mapping_env \<Rightarrow> TraceWriter \<Rightarrow> KernelMapping \<Rightarrow> stat \<Rightarrow> MappingOrigin \<Rightarrow>
     MMapSource \<times> (64 word \<times> 64 word) set" where
  "mapping_source E w km st origin =
     (let immutable = files_assumed_immutable w
      in if origin = REMAP_MAPPING \<or> origin = PATCH_MAPPING then (Zero, immutable)
         else if take 5 (km_fsname km) = ''/SYSV'' then (Trace, immutable)
         else if origin = SYSCALL_MAPPING \<and>
                 (km_inode km = 0 \<or> km_fsname km = ''/dev/zero (deleted)'')
           then (Zero, immutable)
         else if origin = RR_BUFFER_MAPPING then (Zero, immutable)
         else
           (case (if and (km_flags km) MAP_PRIVATE = 0 then None
                  else try_clone_file E w (km_fsname km)) of
              Some backing_file_name \<Rightarrow> (File (str_to_data backing_file_name), immutable)
            | None \<Rightarrow>
                if should_copy_mmap_region E km st \<and> (st_dev st, st_ino st) \<notin> immutable
                then (Trace, immutable)
                else
                  (case try_clone_file E w (km_fsname km) of
                     Some backing_file_name \<Rightarrow> (File (str_to_data backing_file_name), immutable)
                   | None \<Rightarrow>
                       (File (str_to_data (try_hardlink_file E w (km_fsname km))),
                        insert (st_dev st, st_ino st) immutable))))"

definition write_mapped_region ::
  "mapping_env \<Rightarrow> TraceWriter \<Rightarrow> KernelMapping \<Rightarrow> stat \<Rightarrow> MappingOrigin \<Rightarrow> RecordInTrace \<times> TraceWriter" where
  "write_mapped_region E w km st origin =
     (let mmap = \<lparr>mm_frameTime = global_time w, mm_start = km_start km, mm_end = km_end km,
                  mm_fsname = str_to_data (km_fsname km), mm_device = km_device km,
                  mm_inode = km_inode km, mm_prot = km_prot km, mm_flags = km_flags km,
                  mm_fileOffsetBytes = km_file_offset_bytes km, mm_statMode = st_mode st,
                  mm_statUid = st_uid st, mm_statGid = st_gid st, mm_statSize = st_size st,
                  mm_statMTime = st_mtime st, mm_source = Zero\<rparr>;
          src = fst (mapping_source E w km st origin);
          w' = w\<lparr>w_mmaps := cw_write [mmap\<lparr>mm_source := src\<rparr>] (w_mmaps w),
                 files_assumed_immutable := snd (mapping_source E w km st origin),
                 mmap_count := mmap_count w + 1\<rparr>
      in (if src = Trace then RECORD_IN_TRACE else DONT_RECORD_IN_TRACE, w'))"



subsection \<open>Raw data and generic payloads\<close>

text \<open>
  \<open>write_raw(rec_tid, d, len, addr)\<close>: the model's \<open>d\<close> is the \<open>len\<close> bytes at
  \<open>d\<close>, and \<open>len\<close> is a \<open>size_t\<close> of 64 bits.
\<close>

definition write_raw :: "32 word \<Rightarrow> byte list \<Rightarrow> 64 word \<Rightarrow> TraceWriter \<Rightarrow> TraceWriter" where
  "write_raw rec_tid d addr w =
     (let len = (of_nat (length d) :: 64 word);
          data_header = cw_write (to_bytes (global_time w) @ to_bytes rec_tid @ to_bytes addr @
                                  to_bytes len) (w_data_header w);
          data = cw_write d (w_data w)
      in w\<lparr>w_data_header := data_header, w_data := data\<rparr>)"

definition read_raw_data :: "TraceReader \<Rightarrow> failure + (RawData \<times> TraceReader)" where
  "read_raw_data s =
     and_then (read_scalar (r_data_header s)) (\<lambda>(time :: FrameTime, data_header).
       and_then (read_scalar data_header) (\<lambda>(rec_tid :: 32 word, data_header).
         and_then (read_scalar data_header) (\<lambda>(addr :: 64 word, data_header).
           and_then (read_scalar data_header) (\<lambda>(num_bytes :: 64 word, data_header).
             if time \<noteq> global_time s then Inl (ASSERT ''time == global_time'')
             else
               and_then (cr_read (unat num_bytes) (r_data s)) (\<lambda>(bytes, data).
                 Inr (\<lparr>rd_data = bytes, rd_addr = addr, rd_rec_tid = rec_tid\<rparr>,
                      s\<lparr>r_data_header := data_header, r_data := data\<rparr>))))))"

text \<open>
  \<open>read_raw_data_for_frame(frame, d)\<close>: the result is the boolean returned, the value
  of \<open>d\<close> afterwards and the reader.
\<close>

definition read_raw_data_for_frame ::
  "TraceFrame \<Rightarrow> RawData \<Rightarrow> TraceReader \<Rightarrow> failure + (bool \<times> RawData \<times> TraceReader)" where
  "read_raw_data_for_frame frame d s =
     (if cr_at_end (r_data_header s) then Inr (False, d, s)
      else
        let data_header = save_state (r_data_header s)
        in and_then (read_scalar data_header) (\<lambda>(time :: FrameTime, data_header).
             let s1 = s\<lparr>r_data_header := restore_state data_header\<rparr>
             in if time <s frame_time frame then Inl (ASSERT ''time >= frame.time()'')
                else if frame_time frame <s time then Inr (False, d, s1)
                else and_then (read_raw_data s1) (\<lambda>(d', s2). Inr (True, d', s2))))"

definition write_generic :: "byte list \<Rightarrow> TraceWriter \<Rightarrow> TraceWriter" where
  "write_generic d w =
     (let len = (of_nat (length d) :: 64 word);
          generic = cw_write (to_bytes (global_time w) @ to_bytes len) (w_generic w);
          generic = cw_write d generic
      in w\<lparr>w_generic := generic\<rparr>)"

definition read_generic :: "TraceReader \<Rightarrow> failure + (byte list \<times> TraceReader)" where
  "read_generic s =
     and_then (read_scalar (r_generic s)) (\<lambda>(time :: FrameTime, generic).
       and_then (read_scalar generic) (\<lambda>(num_bytes :: 64 word, generic).
         if time \<noteq> global_time s then Inl (ASSERT ''time == global_time'')
         else
           and_then (cr_read (unat num_bytes) generic) (\<lambda>(out, generic).
             Inr (out, s\<lparr>r_generic := generic\<rparr>))))"

definition read_generic_for_frame ::
  "TraceFrame \<Rightarrow> byte list \<Rightarrow> TraceReader \<Rightarrow> failure + (bool \<times> byte list \<times> TraceReader)" where
  "read_generic_for_frame frame out s =
     (if cr_at_end (r_generic s) then Inr (False, out, s)
      else
        let generic = save_state (r_generic s)
        in and_then (read_scalar generic) (\<lambda>(time :: FrameTime, generic).
             let s1 = s\<lparr>r_generic := restore_state generic\<rparr>
             in if time <s frame_time frame then Inl (ASSERT ''time >= frame.time()'')
                else if frame_time frame <s time then Inr (False, out, s1)
                else and_then (read_generic s1) (\<lambda>(out', s2). Inr (True, out', s2))))"

section \<open>Version file and construction\<close>

definition TRACE_VERSION :: int where
  "TRACE_VERSION = 85"

text \<open>\<open>EX_DATAERR\<close> of \<open>sysexits.h\<close>; \<open>long\<close> has 64 bits on the hosts of the recorder.\<close>

definition EX_DATAERR :: int where
  "EX_DATAERR = 65"

definition LONG_MAX :: int where
  "LONG_MAX = 2 ^ 63 - 1"

definition LONG_MIN :: int where
  "LONG_MIN = - (2 ^ 63)"

definition nl :: string where
  "nl = [CHR 0x0A]"

definition isspace :: "char \<Rightarrow> bool" where
  "isspace c = (c \<in> set [CHR '' '', CHR 0x09, CHR 0x0A, CHR 0x0B, CHR 0x0C, CHR 0x0D])"

definition isdigit :: "char \<Rightarrow> bool" where
  "isdigit c = (48 \<le> (of_char c :: nat) \<and> (of_char c :: nat) \<le> 57)"

definition digit_val :: "char \<Rightarrow> int" where
  "digit_val c = int (of_char c) - 48"

text \<open>
  \<open>strtol(nptr, &end_ptr, 10)\<close> of the C library: white space, an optional sign, then
  decimal digits; the value is clamped to the range of \<open>long\<close>; with no digits the
  value is 0 and \<open>end_ptr\<close> is \<open>nptr\<close>. The result is the value and the text at
  \<open>end_ptr\<close>.
\<close>

definition strtol :: "string \<Rightarrow> int \<times> string" where
  "strtol nptr =
     (let s = dropWhile isspace nptr;
          (neg, t) = (case s of
                        [] \<Rightarrow> (False, s)
                      | c # r \<Rightarrow> if c = CHR ''-'' then (True, r)
                                 else if c = CHR ''+'' then (False, r)
                                 else (False, s));
          ds = takeWhile isdigit t
      in if ds = [] then (0, nptr)
         else
           let acc = foldl (\<lambda>a c. 10 * a + digit_val c) 0 ds;
               v = (if neg then - acc else acc)
           in (max LONG_MIN (min LONG_MAX v), dropWhile isdigit t))"

text \<open>\<open>c_str()\<close> read as a C string: the text up to the first NUL.\<close>

definition c_str :: "string \<Rightarrow> string" where
  "c_str str = takeWhile (\<lambda>c. c \<noteq> CHR 0x00) str"

text \<open>
  The loop that reads the version file one character at a time up to the newline:
  \<open>fd\<close> is what is left to read, the result the version string and the rest of the
  file, or \<open>None\<close> where \<open>read\<close> returns no character.
\<close>

fun read_version_str :: "string \<Rightarrow> string \<Rightarrow> (string \<times> string) option" where
  "read_version_str [] version_str = None"
| "read_version_str (ch # fd) version_str =
     (if ch = CHR 0x0A then Some (version_str, fd)
      else read_version_str fd (version_str @ [ch]))"

datatype version_fd = Open_ENOENT | Open_failed | Open_ok string

record Header =
  h_bindToCpu :: "32 word"
  h_hasCpuidFaulting :: bool
  h_cpuidRecords :: "byte list"
  h_uuid :: "byte list"

text \<open>The files of a trace directory, as a reader finds them.\<close>

record trace_files =
  tf_version :: version_fd
  tf_events :: "byte list"
  tf_data_header :: "byte list"
  tf_data :: "byte list"
  tf_mmaps :: "MMapMsg list"
  tf_tasks :: "TaskEventMsg list"
  tf_generic :: "byte list"

definition sizeof_CPUIDRecord :: nat where
  "sizeof_CPUIDRecord = 24"

definition incompatible_version_message :: "string \<Rightarrow> int \<Rightarrow> string" where
  "incompatible_version_message path version =
     nl @ ''rr: error: Recorded trace `'' @ path @ ''' has an incompatible version '' @
     show_int version @ ''; expected'' @ nl @
     ''           '' @ show_int TRACE_VERSION @ ''.  Did you record `'' @ path @
     ''' with an older version of rr?  If so,'' @ nl @
     ''           you'll need to replay `'' @ path @ ''' with that older version.  Otherwise,'' @ nl @
     ''           your trace is likely corrupted.'' @ nl @ nl"

text \<open>
  \<open>TraceReader::TraceReader(dir)\<close>. \<open>dir\<close> is the directory after \<open>real_path\<close>;
  \<open>unpack\<close> is the packed-message decoder of the external library on the rest of the
  version file (\<open>None\<close> where it throws).
\<close>

definition TraceReader_new ::
  "(string \<Rightarrow> Header option) \<Rightarrow> string \<Rightarrow> trace_files \<Rightarrow> failure + TraceReader" where
  "TraceReader_new unpack dir files =
     (let path = dir @ ''/version''
      in case tf_version files of
           Open_ENOENT \<Rightarrow>
             Inl (EXIT_PROCESS EX_DATAERR
                    (nl @ ''rr: error: Trace version file `'' @ path @
                     ''' not found. There is probably no trace there.'' @ nl @ nl))
         | Open_failed \<Rightarrow>
             Inl (EXIT_PROCESS EX_DATAERR
                    (nl @ ''rr: error: Trace version file `'' @ path @ ''' not readable.'' @ nl @ nl))
         | Open_ok contents \<Rightarrow>
             (case read_version_str contents [] of
                None \<Rightarrow> Inl (FATAL (''Can't read version file '' @ path))
              | Some (version_str, rest) \<Rightarrow>
                  (case strtol (c_str version_str) of
                     (version, end_ptr) \<Rightarrow>
                       if end_ptr \<noteq> [] then Inl (FATAL (''Invalid version: '' @ version_str))
                       else if TRACE_VERSION \<noteq> version
                         then Inl (EXIT_PROCESS EX_DATAERR (incompatible_version_message path version))
                       else
                         (case unpack rest of
                            None \<Rightarrow> Inl UNCAUGHT_IOException
                          | Some header \<Rightarrow>
                              let len = length (h_cpuidRecords header) div sizeof_CPUIDRecord
                              in if length (h_cpuidRecords header) \<noteq> len * sizeof_CPUIDRecord
                                 then Inl (ASSERT ''cpuid_records_bytes.size() == len * sizeof(CPUIDRecord)'')
                                 else
                                   Inr \<lparr>trace_dir = dir, global_time = 0,
                                        r_events = cr_open (tf_events files),
                                        r_data_header = cr_open (tf_data_header files),
                                        r_data = cr_open (tf_data files),
                                        r_mmaps = cr_open (tf_mmaps files),
                                        r_tasks = cr_open (tf_tasks files),
                                        r_generic = cr_open (tf_generic files),
                                        bind_to_cpu = h_bindToCpu header,
                                        trace_uses_cpuid_faulting = h_hasCpuidFaulting header,
                                        cpuid_records = take (len * sizeof_CPUIDRecord)
                                                          (h_cpuidRecords header)\<rparr>))))"

text \<open>
  \<open>TraceWriter::TraceWriter\<close>, once \<open>make_trace_dir\<close> has made \<open>dir\<close>: the state the
  constructor leaves and the version file it writes (\<open>pack\<close> is the external
  library's packed-message encoder). The clone probe's result is the parameter
  \<open>probe\<close>.
\<close>

definition TraceWriter_new :: "string \<Rightarrow> bool \<Rightarrow> TraceWriter" where
  "TraceWriter_new dir probe =
     \<lparr>trace_dir = dir, global_time = 1,
      w_events = \<lparr>cw_data = [], cw_error = False\<rparr>,
      w_data_header = \<lparr>cw_data = [], cw_error = False\<rparr>,
      w_data = \<lparr>cw_data = [], cw_error = False\<rparr>,
      w_mmaps = \<lparr>cw_data = [], cw_error = False\<rparr>,
      w_tasks = \<lparr>cw_data = [], cw_error = False\<rparr>,
      w_generic = \<lparr>cw_data = [], cw_error = False\<rparr>,
      mmap_count = 0, supports_file_data_cloning = probe, files_assumed_immutable = {}\<rparr>"



text \<open>A trace directory with no version file and empty substreams.\<close>

definition no_files :: trace_files where
  "no_files = \<lparr>tf_version = Open_ENOENT, tf_events = [], tf_data_header = [], tf_data = [],
     tf_mmaps = [], tf_tasks = [], tf_generic = []\<rparr>"

section \<open>Sample inputs\<close>

text \<open>
  Concrete parameters and inputs, for the instances of the results below.
  \<open>sample_externals\<close> takes exec info to be bit 0 of the encoded event and the event's
  architecture to be x86; its \<open>set_to_raw_data\<close> accepts the format \<open>NONE\<close> (giving
  empty extra registers), accepts format 1 with the data as they are, and reports failure
  on any other format. \<open>cloning_env\<close> is a session with file cloning on a file system where
  every call succeeds; \<open>plain_env\<close> is one without cloning where \<open>link\<close> fails.
\<close>

definition sample_externals :: externals where
  "sample_externals =
     \<lparr>has_exec_info = (\<lambda>e. bit e 0),
      event_arch = (\<lambda>e. x86),
      set_to_raw_data = (\<lambda>a f d l.
         if f = format_NONE then Some (ExtraRegisters_empty a)
         else if f = 1 then Some \<lparr>er_format = 1, er_arch = a, er_data = d\<rparr>
         else None),
      xsave_layout_from_trace = (\<lambda>records. [])\<rparr>"

definition cloning_env :: mapping_env where
  "cloning_env =
     \<lparr>use_file_cloning = True, open_rdonly = (\<lambda>p. True), open_creat_excl = (\<lambda>p. True),
      ioctl_clone = (\<lambda>d s. True), link_ok = (\<lambda>old new. True),
      should_copy_mmap_region = (\<lambda>km st. False), stat_file = (\<lambda>p. None)\<rparr>"

definition plain_env :: mapping_env where
  "plain_env =
     \<lparr>use_file_cloning = False, open_rdonly = (\<lambda>p. True), open_creat_excl = (\<lambda>p. True),
      ioctl_clone = (\<lambda>d s. False), link_ok = (\<lambda>old new. False),
      should_copy_mmap_region = (\<lambda>km st. False), stat_file = (\<lambda>p. None)\<rparr>"

definition shared_lib_km :: KernelMapping where
  "shared_lib_km =
     \<lparr>km_start = 4096, km_end = 8192, km_fsname = ''/lib/x'', km_device = 8, km_inode = 7,
      km_prot = 1, km_flags = 1, km_file_offset_bytes = 0\<rparr>"

definition shared_lib_stat :: stat where
  "shared_lib_stat =
     \<lparr>st_dev = 8, st_ino = 7, st_mode = 33188, st_uid = 0, st_gid = 0, st_size = 100,
      st_mtime = 5\<rparr>"

definition new_writer :: TraceWriter where
  "new_writer = TraceWriter_new ''/t'' True"

section \<open>Sequences of calls\<close>

text \<open>
  A recording is a sequence of calls on one \<open>TraceWriter\<close>; it stops at the first call
  that does not return. A replay reads frames one after the other.
\<close>

datatype writer_call =
  Write_frame TraceFrame
| Write_task_event TraceTaskEvent
| Write_mapped_region KernelMapping stat MappingOrigin
| Write_raw "32 word" "byte list" "64 word"
| Write_generic "byte list"

definition writer_call :: "mapping_env \<Rightarrow> externals \<Rightarrow> writer_call \<Rightarrow> TraceWriter \<Rightarrow> failure + TraceWriter" where
  "writer_call E X c w =
     (case c of
        Write_frame frame \<Rightarrow> write_frame X frame w
      | Write_task_event event \<Rightarrow> write_task_event event w
      | Write_mapped_region km st origin \<Rightarrow> Inr (snd (write_mapped_region E w km st origin))
      | Write_raw rec_tid d addr \<Rightarrow> Inr (write_raw rec_tid d addr w)
      | Write_generic d \<Rightarrow> Inr (write_generic d w))"

fun writer_calls :: "mapping_env \<Rightarrow> externals \<Rightarrow> writer_call list \<Rightarrow> TraceWriter \<Rightarrow> failure + TraceWriter" where
  "writer_calls E X [] w = Inr w"
| "writer_calls E X (c # cs) w = and_then (writer_call E X c w) (writer_calls E X cs)"

fun read_frames :: "externals \<Rightarrow> nat \<Rightarrow> TraceReader \<Rightarrow> failure + (TraceFrame list \<times> TraceReader)" where
  "read_frames X 0 s = Inr ([], s)"
| "read_frames X (Suc n) s =
     and_then (read_frame X s) (\<lambda>(frame, s').
       and_then (read_frames X n s') (\<lambda>(frames, s''). Inr (frame # frames, s'')))"

section \<open>The mapping classification as the specification states it\<close>

text \<open>
  The specification's ladder (section 4.4): six rules tried in order, the first whose
  condition holds gives the source; the seventh is the fallback.
\<close>

definition first_match :: "(bool \<times> 'a) list \<Rightarrow> 'a \<Rightarrow> 'a" where
  "first_match rules fallback = (case find fst rules of Some rule \<Rightarrow> snd rule | None \<Rightarrow> fallback)"

definition is_private :: "KernelMapping \<Rightarrow> bool" where
  "is_private km = bit (km_flags km) 1"

definition clone_name :: "TraceWriter \<Rightarrow> string \<Rightarrow> string" where
  "clone_name w file_name =
     ''mmap_clone_'' @ show_int (sint (mmap_count w)) @ ''_'' @ base_file_name file_name"

definition hardlink_name :: "TraceWriter \<Rightarrow> string \<Rightarrow> string" where
  "hardlink_name w file_name =
     ''mmap_hardlink_'' @ show_int (sint (mmap_count w)) @ ''_'' @ base_file_name file_name"

definition clone_succeeds :: "mapping_env \<Rightarrow> TraceWriter \<Rightarrow> string \<Rightarrow> bool" where
  "clone_succeeds E w file_name =
     (use_file_cloning E \<and> open_rdonly E file_name \<and>
      open_creat_excl E (trace_dir w @ ''/'' @ clone_name w file_name) \<and>
      ioctl_clone E (trace_dir w @ ''/'' @ clone_name w file_name) file_name)"

definition hardlink_succeeds :: "mapping_env \<Rightarrow> TraceWriter \<Rightarrow> string \<Rightarrow> bool" where
  "hardlink_succeeds E w file_name =
     link_ok E file_name (trace_dir w @ ''/'' @ hardlink_name w file_name)"

definition ladder ::
  "mapping_env \<Rightarrow> TraceWriter \<Rightarrow> KernelMapping \<Rightarrow> stat \<Rightarrow> MappingOrigin \<Rightarrow> (bool \<times> MMapSource) list" where
  "ladder E w km st origin =
     [(origin = REMAP_MAPPING \<or> origin = PATCH_MAPPING, Zero),
      (prefix ''/SYSV'' (km_fsname km), Trace),
      (origin = SYSCALL_MAPPING \<and> (km_inode km = 0 \<or> km_fsname km = ''/dev/zero (deleted)''), Zero),
      (origin = RR_BUFFER_MAPPING, Zero),
      (is_private km \<and> clone_succeeds E w (km_fsname km), File (clone_name w (km_fsname km))),
      (should_copy_mmap_region E km st \<and> (st_dev st, st_ino st) \<notin> files_assumed_immutable w, Trace)]"

definition fallback_source :: "mapping_env \<Rightarrow> TraceWriter \<Rightarrow> KernelMapping \<Rightarrow> MMapSource" where
  "fallback_source E w km =
     File (if clone_succeeds E w (km_fsname km) then clone_name w (km_fsname km)
           else if hardlink_succeeds E w (km_fsname km) then hardlink_name w (km_fsname km)
           else km_fsname km)"

definition spec_mapping_source ::
  "mapping_env \<Rightarrow> TraceWriter \<Rightarrow> KernelMapping \<Rightarrow> stat \<Rightarrow> MappingOrigin \<Rightarrow> MMapSource" where
  "spec_mapping_source E w km st origin =
     first_match (ladder E w km st origin) (fallback_source E w km)"

definition reaches_fallback ::
  "mapping_env \<Rightarrow> TraceWriter \<Rightarrow> KernelMapping \<Rightarrow> stat \<Rightarrow> MappingOrigin \<Rightarrow> bool" where
  "reaches_fallback E w km st origin = (find fst (ladder E w km st origin) = None)"

text \<open>The record a call of \<open>write_mapped_region\<close> has put on the \<open>MMAPS\<close> substream.\<close>

definition emitted_mmap :: "TraceWriter \<Rightarrow> MMapMsg" where
  "emitted_mmap w = last (cw_data (w_mmaps w))"

section \<open>Looking ahead, and sample traces\<close>

text \<open>
  \<open>next_time r\<close> is the time field of the next record of a substream whose records
  start with a \<open>FrameTime\<close>: \<open>None\<close> where fewer than eight bytes are left.
\<close>

definition next_time :: "byte CompressedReader \<Rightarrow> FrameTime option" where
  "next_time r =
     (if 8 \<le> length (remaining r) then Some (from_bytes (take 8 (remaining r))) else None)"

text \<open>A reader at time 0 on the substreams of a trace directory, with an empty header.\<close>

definition reader_of :: "trace_files \<Rightarrow> TraceReader" where
  "reader_of files =
     \<lparr>trace_dir = ''/t'', global_time = 0,
      r_events = cr_open (tf_events files), r_data_header = cr_open (tf_data_header files),
      r_data = cr_open (tf_data files), r_mmaps = cr_open (tf_mmaps files),
      r_tasks = cr_open (tf_tasks files), r_generic = cr_open (tf_generic files),
      bind_to_cpu = 0, trace_uses_cpuid_faulting = False, cpuid_records = []\<rparr>"

text \<open>
  Two frames: the first without exec info (the frame of the specification's first
  scenario), the second with x86 registers and four bytes of extra register data in
  format 1.
\<close>

definition sample_frame1 :: TraceFrame where
  "sample_frame1 = TraceFrame_make 1 42 0 0 0"


section \<open>Layouts, and more sample inputs\<close>

text \<open>
  The last two statements of \<open>read_frame\<close>, with the cursor of \<open>EVENTS\<close> \<open>n\<close> bytes
  further: the clock ticks and must then equal the frame's time.
\<close>

definition finish_frame :: "TraceReader \<Rightarrow> TraceFrame \<Rightarrow> nat \<Rightarrow> failure + (TraceFrame \<times> TraceReader)" where
  "finish_frame s frame n =
     (if global_time s + 1 \<noteq> frame_time frame then Inl (ASSERT ''time() == frame.time()'')
      else Inr (frame, s\<lparr>r_events := advance n (r_events s), global_time := global_time s + 1\<rparr>))"

text \<open>
  The bytes of a frame on \<open>EVENTS\<close>, after the layout of the specification (section 6):
  \<open>BasicInfo\<close>; then, if the event has exec info, the architecture tag, the register
  block, the extra register format, the extra register length as an \<open>int\<close>, and that
  many bytes of extra register data.
\<close>

definition frame_bytes :: "externals \<Rightarrow> TraceFrame \<Rightarrow> byte list" where
  "frame_bytes X frame =
     BasicInfo_bytes \<lparr>bi_global_time = frame_time frame, bi_tid = frame_tid frame,
                      bi_ev = frame_event frame, bi_ticks = frame_ticks frame,
                      bi_monotonic_sec = frame_monotonic_sec frame\<rparr> @
     (if has_exec_info X (frame_event frame) then
        arch_char (regs_arch (recorded_regs frame)) # regs_ptrace (recorded_regs frame) @
        er_format (recorded_extra_regs frame) #
        to_bytes (of_nat (length (er_data (recorded_extra_regs frame))) :: 32 word) @
        (if 0 <s (of_nat (length (er_data (recorded_extra_regs frame))) :: 32 word)
         then take (unat (of_nat (length (er_data (recorded_extra_regs frame))) :: 32 word))
                (er_data (recorded_extra_regs frame))
         else [])
      else [])"

text \<open>A record of \<open>RAW_DATA_HEADER\<close>: time, tid, address, length.\<close>

definition raw_header_bytes :: "FrameTime \<Rightarrow> 32 word \<Rightarrow> 64 word \<Rightarrow> 64 word \<Rightarrow> byte list" where
  "raw_header_bytes time rec_tid addr len =
     to_bytes time @ to_bytes rec_tid @ to_bytes addr @ to_bytes len"



definition sample_header :: Header where
  "sample_header = \<lparr>h_bindToCpu = 0, h_hasCpuidFaulting = False, h_cpuidRecords = [], h_uuid = []\<rparr>"

definition at_time_1 :: "TraceReader \<Rightarrow> TraceReader" where
  "at_time_1 s = s\<lparr>global_time := 1\<rparr>"

definition empty_RawData :: RawData where
  "empty_RawData = \<lparr>rd_data = [], rd_addr = 0, rd_rec_tid = 0\<rparr>"

section \<open>Recording and replay\<close>











text \<open>
  The contents of the six substreams, for the statements below: the bytes of the binary
  substreams, the messages of \<open>TASKS\<close>, and of each message of \<open>MMAPS\<close> its frame time
  and mapping. \<open>enc X t c\<close> is what the call \<open>c\<close> adds at writer time \<open>t\<close>, after the
  layout of the specification (section 6); \<open>stream X t cs\<close> what the calls \<open>cs\<close> add.
\<close>

record contents =
  c_events :: "byte list"
  c_data_header :: "byte list"
  c_data :: "byte list"
  c_mmaps :: "(FrameTime \<times> KernelMapping) list"
  c_tasks :: "TaskEventMsg list"
  c_generic :: "byte list"

definition nothing :: contents where
  "nothing = \<lparr>c_events = [], c_data_header = [], c_data = [], c_mmaps = [], c_tasks = [],
     c_generic = []\<rparr>"

definition app :: "contents \<Rightarrow> contents \<Rightarrow> contents" where
  "app a b =
     \<lparr>c_events = c_events a @ c_events b, c_data_header = c_data_header a @ c_data_header b,
      c_data = c_data a @ c_data b, c_mmaps = c_mmaps a @ c_mmaps b,
      c_tasks = c_tasks a @ c_tasks b, c_generic = c_generic a @ c_generic b\<rparr>"








section \<open>Directory bootstrap: results\<close>

text \<open>
  C9, as stated, fails: with only \<open>HOME=/h\<close> set and both \<open>/h/.local/share/rr\<close> and
  \<open>/h/.rr\<close> present, the code answers \<open>/h/.local/share/rr\<close>, while the stated order
  (step 3 before step 4) answers \<open>/h/.rr\<close>.
\<close>

theorem C9_counterexample:
  "fst (trace_save_dir [(''HOME'', ''/h'')] {''/h/.local/share/rr'', ''/h/.rr''} []) = ''/h/.local/share/rr''
   \<and> spec_trace_root [(''HOME'', ''/h'')] {''/h/.local/share/rr'', ''/h/.rr''} = ''/h/.rr''"
  by (simp add: trace_save_dir_def default_rr_trace_dir_def spec_trace_root_def getenv_def
      dir_exists_def Let_def)

text \<open>
  C9, amended: on the first resolution of a process (the static cache still empty) the
  trace root is \<open>$_RR_TRACE_DIR\<close> if set; else the XDG directory if it exists, which is
  \<open>$XDG_DATA_HOME/rr\<close> when \<open>XDG_DATA_HOME\<close> is set and \<open>$HOME/.local/share/rr\<close>
  when only \<open>HOME\<close> is set; else \<open>$HOME/.rr\<close> if it exists; else the XDG directory
  when one of the two variables is set; else \<open>/tmp/rr\<close>.
\<close>

theorem C9_trace_root_order:
  "fst (trace_save_dir env fs []) = amended_trace_root env fs"
  by (auto simp: trace_save_dir_def default_rr_trace_dir_def amended_trace_root_def
      xdg_candidate_def dot_candidate_def dir_exists_def Let_def split: option.splits)

section \<open>Version check: results\<close>

declare show_nat.simps [simp del]

lemma of_char_digit_char: "d < 10 \<Longrightarrow> (of_char (digit_char d) :: nat) = 48 + d"
  by (simp add: digit_char_def)

lemma isdigit_digit_char: "d < 10 \<Longrightarrow> isdigit (digit_char d)"
  by (simp add: isdigit_def of_char_digit_char)

lemma digit_val_digit_char: "d < 10 \<Longrightarrow> digit_val (digit_char d) = int d"
  by (simp add: digit_val_def of_char_digit_char)

lemma digit_char_neq:
  assumes "d < 10"
  shows "digit_char d \<noteq> CHR 0x0A" "digit_char d \<noteq> CHR 0x00" "digit_char d \<noteq> CHR ''-''"
    "digit_char d \<noteq> CHR ''+''" "\<not> isspace (digit_char d)"
proof -
  have e: "(of_char (digit_char d) :: nat) = 48 + d" using assms by (rule of_char_digit_char)
  show "digit_char d \<noteq> CHR 0x0A" using e by auto
  show "digit_char d \<noteq> CHR 0x00" using e by auto
  show "digit_char d \<noteq> CHR ''-''" using e by auto
  show "digit_char d \<noteq> CHR ''+''" using e by auto
  show "\<not> isspace (digit_char d)" using e by (auto simp: isspace_def)
qed

lemma show_nat_digits: "c \<in> set (show_nat n) \<Longrightarrow> \<exists>d<10. c = digit_char d"
proof (induction n rule: show_nat.induct)
  case (1 n)
  show ?case
  proof (cases "n < 10")
    case True
    with "1.prems" show ?thesis by (auto simp: show_nat.simps [of n])
  next
    case False
    with "1.prems" have "c \<in> set (show_nat (n div 10)) \<or> c = digit_char (n mod 10)"
      by (auto simp: show_nat.simps [of n])
    with False "1.IH" show ?thesis by (metis mod_less_divisor zero_less_numeral)
  qed
qed

lemma show_nat_not_Nil: "show_nat n \<noteq> []"
  by (simp add: show_nat.simps [of n])

lemma show_nat_value: "foldl (\<lambda>a c. 10 * a + digit_val c) 0 (show_nat n) = int n"
proof (induction n rule: show_nat.induct)
  case (1 n)
  show ?case
  proof (cases "n < 10")
    case True
    then show ?thesis by (simp add: show_nat.simps [of n] digit_val_digit_char)
  next
    case False
    with "1.IH" have "foldl (\<lambda>a c. 10 * a + digit_val c) 0 (show_nat (n div 10)) = int (n div 10)"
      by simp
    with False show ?thesis
      by (simp add: show_nat.simps [of n] digit_val_digit_char zdiv_int zmod_int)
  qed
qed

lemma strtol_unsigned:
  assumes "ds \<noteq> []" "\<forall>c \<in> set ds. isdigit c"
  shows "strtol ds = (max LONG_MIN (min LONG_MAX (foldl (\<lambda>a c. 10 * a + digit_val c) 0 ds)), [])"
proof -
  obtain c cs where ccs: "ds = c # cs" using assms(1) by (cases ds) auto
  have dig: "isdigit c" using assms(2) ccs by simp
  have cn: "c \<noteq> CHR ''-''" "c \<noteq> CHR ''+''" "\<not> isspace c"
    using dig by (auto simp: isdigit_def isspace_def)
  have dw0: "dropWhile isspace ds = ds" using cn ccs by simp
  have tw: "takeWhile isdigit ds = ds" using assms(2) by (simp add: takeWhile_eq_all_conv)
  have dw: "dropWhile isdigit ds = []" using assms(2) by simp
  have "strtol ds = (let s = ds; (neg, t) = (False, ds); ds' = takeWhile isdigit t
      in if ds' = [] then (0, ds)
         else
           let acc = foldl (\<lambda>a c. 10 * a + digit_val c) 0 ds';
               v = (if neg then - acc else acc)
           in (max LONG_MIN (min LONG_MAX v), dropWhile isdigit t))"
    unfolding strtol_def dw0 using cn by (simp add: ccs)
  then show ?thesis using assms(1) by (simp add: tw dw)
qed

lemma strtol_negative:
  assumes "ds \<noteq> []" "\<forall>c \<in> set ds. isdigit c"
  shows "strtol (CHR ''-'' # ds) =
           (max LONG_MIN (min LONG_MAX (- foldl (\<lambda>a c. 10 * a + digit_val c) 0 ds)), [])"
proof -
  have dw0: "dropWhile isspace (CHR ''-'' # ds) = CHR ''-'' # ds" by (simp add: isspace_def)
  have tw: "takeWhile isdigit ds = ds" using assms(2) by (simp add: takeWhile_eq_all_conv)
  have dw: "dropWhile isdigit ds = []" using assms(2) by simp
  show ?thesis unfolding strtol_def dw0 using assms(1) by (simp add: tw dw)
qed

lemma strtol_show_int:
  assumes "LONG_MIN \<le> v" "v \<le> LONG_MAX"
  shows "strtol (show_int v) = (v, [])"
proof -
  define n where "n = nat \<bar>v\<bar>"
  have all_digits: "\<forall>c \<in> set (show_nat n). isdigit c"
    using show_nat_digits isdigit_digit_char by blast
  have val: "foldl (\<lambda>a c. 10 * a + digit_val c) 0 (show_nat n) = \<bar>v\<bar>"
    by (simp add: show_nat_value n_def)
  show ?thesis
  proof (cases "v < 0")
    case True
    then have s: "show_int v = CHR ''-'' # show_nat n"
      by (simp add: show_int_def n_def)
    show ?thesis
      unfolding s strtol_negative [OF show_nat_not_Nil all_digits] val
      using True assms by simp
  next
    case False
    then have s: "show_int v = show_nat n"
      by (simp add: show_int_def n_def)
    show ?thesis
      unfolding s strtol_unsigned [OF show_nat_not_Nil all_digits] val
      using False assms by simp
  qed
qed

lemma show_int_chars:
  assumes "c \<in> set (show_int v)"
  shows "c \<noteq> CHR 0x0A \<and> c \<noteq> CHR 0x00"
proof -
  from assms have "c = CHR ''-'' \<or> (\<exists>d<10. c = digit_char d)"
    using show_nat_digits by (auto simp: show_int_def split: if_splits)
  then show ?thesis using digit_char_neq by auto
qed

lemma read_version_str_line:
  "CHR 0x0A \<notin> set xs \<Longrightarrow> read_version_str (xs @ CHR 0x0A # rest) acc = Some (acc @ xs, rest)"
  by (induction xs arbitrary: acc) auto

lemma c_str_show_int: "c_str (show_int v) = show_int v"
  unfolding c_str_def using show_int_chars by (simp add: takeWhile_eq_all_conv)

lemma read_version_line_show_int:
  "read_version_str (show_int v @ nl @ rest) [] = Some (show_int v, rest)"
  using read_version_str_line [of "show_int v" rest "[]"] show_int_chars [of _ v]
  by (auto simp: nl_def)

lemma sublist_mid: "sublist xs (a @ xs @ b)"
  by (auto simp: sublist_def)

lemma message_mentions:
  "sublist (show_int version) (incompatible_version_message path version) \<and>
   sublist (show_int TRACE_VERSION) (incompatible_version_message path version)"
proof -
  have "\<exists>a b. incompatible_version_message path version = a @ show_int version @ b"
    unfolding incompatible_version_message_def
    by (metis append.assoc)
  moreover have "\<exists>a b. incompatible_version_message path version = a @ show_int TRACE_VERSION @ b"
    unfolding incompatible_version_message_def
    by (metis append.assoc)
  ultimately show ?thesis by (auto simp: sublist_def)
qed

lemma strtol_show_int_clamped:
  "strtol (show_int v) = (max LONG_MIN (min LONG_MAX v), [])"
proof -
  define n where "n = nat \<bar>v\<bar>"
  have all_digits: "\<forall>c \<in> set (show_nat n). isdigit c"
    using show_nat_digits isdigit_digit_char by blast
  have val: "foldl (\<lambda>a c. 10 * a + digit_val c) 0 (show_nat n) = \<bar>v\<bar>"
    by (simp add: show_nat_value n_def)
  show ?thesis
  proof (cases "v < 0")
    case True
    then have s: "show_int v = CHR ''-'' # show_nat n"
      by (simp add: show_int_def n_def)
    show ?thesis
      unfolding s strtol_negative [OF show_nat_not_Nil all_digits] val
      using True by simp
  next
    case False
    then have s: "show_int v = show_nat n"
      by (simp add: show_int_def n_def)
    show ?thesis
      unfolding s strtol_unsigned [OF show_nat_not_Nil all_digits] val
      using False by simp
  qed
qed

lemma TraceReader_new_parsed:
  assumes "tf_version files = Open_ok contents"
    and "read_version_str contents [] = Some (version_str, rest)"
    and "strtol (c_str version_str) = (version, [])"
  shows "TraceReader_new unpack dir files =
     (if version \<noteq> TRACE_VERSION
      then Inl (EXIT_PROCESS EX_DATAERR (incompatible_version_message (dir @ ''/version'') version))
      else case unpack rest of
             None \<Rightarrow> Inl UNCAUGHT_IOException
           | Some header \<Rightarrow>
               if length (h_cpuidRecords header) mod sizeof_CPUIDRecord = 0
               then Inr \<lparr>trace_dir = dir, global_time = 0,
                         r_events = cr_open (tf_events files),
                         r_data_header = cr_open (tf_data_header files),
                         r_data = cr_open (tf_data files),
                         r_mmaps = cr_open (tf_mmaps files),
                         r_tasks = cr_open (tf_tasks files),
                         r_generic = cr_open (tf_generic files),
                         bind_to_cpu = h_bindToCpu header,
                         trace_uses_cpuid_faulting = h_hasCpuidFaulting header,
                         cpuid_records = h_cpuidRecords header\<rparr>
               else Inl (ASSERT ''cpuid_records_bytes.size() == len * sizeof(CPUIDRecord)''))"
proof (cases "version \<noteq> TRACE_VERSION")
  case True
  then have "TRACE_VERSION \<noteq> version" by simp
  then show ?thesis using True
    by (simp add: TraceReader_new_def assms)
next
  case False
  then have tv: "TRACE_VERSION = version" by simp
  show ?thesis
  proof (cases "unpack rest")
    case None
    then show ?thesis using False by (simp add: TraceReader_new_def assms)
  next
    case (Some header)
    show ?thesis
    proof (cases "length (h_cpuidRecords header) mod sizeof_CPUIDRecord = 0")
      case True
      then have "length (h_cpuidRecords header) div sizeof_CPUIDRecord * sizeof_CPUIDRecord
                   = length (h_cpuidRecords header)"
        by (simp add: mod_0_imp_dvd)
      then show ?thesis using Some True False
        by (simp add: TraceReader_new_def assms Let_def)
    next
      case f: False
      then have "length (h_cpuidRecords header) div sizeof_CPUIDRecord * sizeof_CPUIDRecord
                   \<noteq> length (h_cpuidRecords header)"
        by (metis mod_mult_self2_is_0)
      then show ?thesis using Some f False
        by (simp add: TraceReader_new_def assms Let_def)
    qed
  qed
qed

text \<open>
  C5, amended: the number that the constructor compares and prints is the one that
  \<open>strtol\<close> parses from the first line of the version file. When that line parses
  completely to a value \<open>version\<close> other than \<open>TRACE_VERSION\<close>, which is 85, the
  constructor exits with \<open>EX_DATAERR\<close>, which is 65, and a message that contains both
  \<open>version\<close> and 85; when \<open>version\<close> is 85 the constructor goes on to decode the header
  from the rest of the file, and its outcome is the decoder's. For a file that holds the
  decimal of an integer \<open>v\<close> and a newline, the parsed value is \<open>v\<close> clamped to the range
  of a \<open>long\<close>, so it is \<open>v\<close> itself exactly when \<open>v\<close> fits a \<open>long\<close>.
\<close>

theorem C5_parsed_version_check:
  "(tf_version files = Open_ok contents \<and>
    read_version_str contents [] = Some (version_str, rest) \<and>
    strtol (c_str version_str) = (version, []) \<longrightarrow>
      (version \<noteq> TRACE_VERSION \<longrightarrow>
         TraceReader_new unpack dir files =
           Inl (EXIT_PROCESS EX_DATAERR (incompatible_version_message (dir @ ''/version'') version)) \<and>
         EX_DATAERR = 65 \<and>
         sublist (show_int version) (incompatible_version_message (dir @ ''/version'') version) \<and>
         sublist (show_int TRACE_VERSION) (incompatible_version_message (dir @ ''/version'') version)) \<and>
      (version = TRACE_VERSION \<longrightarrow> TRACE_VERSION = 85 \<and>
         (case unpack rest of
            None \<Rightarrow> TraceReader_new unpack dir files = Inl UNCAUGHT_IOException
          | Some header \<Rightarrow>
              if length (h_cpuidRecords header) mod sizeof_CPUIDRecord = 0
              then \<exists>r. TraceReader_new unpack dir files = Inr r \<and>
                       bind_to_cpu r = h_bindToCpu header \<and>
                       trace_uses_cpuid_faulting r = h_hasCpuidFaulting header \<and>
                       cpuid_records r = h_cpuidRecords header
              else TraceReader_new unpack dir files =
                     Inl (ASSERT ''cpuid_records_bytes.size() == len * sizeof(CPUIDRecord)'')))) \<and>
   read_version_str (show_int v @ nl @ tail) [] = Some (show_int v, tail) \<and>
   strtol (c_str (show_int v)) = (max LONG_MIN (min LONG_MAX v), []) \<and>
   (LONG_MIN \<le> v \<and> v \<le> LONG_MAX \<longrightarrow> strtol (c_str (show_int v)) = (v, []))"
proof (intro conjI impI)
  assume a: "tf_version files = Open_ok contents \<and>
    read_version_str contents [] = Some (version_str, rest) \<and>
    strtol (c_str version_str) = (version, [])"
  then have f: "tf_version files = Open_ok contents"
    and l: "read_version_str contents [] = Some (version_str, rest)"
    and p: "strtol (c_str version_str) = (version, [])" by blast+
  note char = TraceReader_new_parsed [OF f l p, of unpack dir]
  {
    assume "version \<noteq> TRACE_VERSION"
    then show "TraceReader_new unpack dir files =
           Inl (EXIT_PROCESS EX_DATAERR (incompatible_version_message (dir @ ''/version'') version))"
      by (simp add: char)
  }
  {
    assume v: "version = TRACE_VERSION"
    show "case unpack rest of
            None \<Rightarrow> TraceReader_new unpack dir files = Inl UNCAUGHT_IOException
          | Some header \<Rightarrow>
              if length (h_cpuidRecords header) mod sizeof_CPUIDRecord = 0
              then \<exists>r. TraceReader_new unpack dir files = Inr r \<and>
                       bind_to_cpu r = h_bindToCpu header \<and>
                       trace_uses_cpuid_faulting r = h_hasCpuidFaulting header \<and>
                       cpuid_records r = h_cpuidRecords header
              else TraceReader_new unpack dir files =
                     Inl (ASSERT ''cpuid_records_bytes.size() == len * sizeof(CPUIDRecord)'')"
      unfolding char using v by (simp split: option.splits)
  }
next
  show "EX_DATAERR = 65" by (simp add: EX_DATAERR_def)
  show "TRACE_VERSION = 85" by (simp add: TRACE_VERSION_def)
  show "sublist (show_int version) (incompatible_version_message (dir @ ''/version'') version)"
    using message_mentions by blast
  show "sublist (show_int TRACE_VERSION) (incompatible_version_message (dir @ ''/version'') version)"
    using message_mentions by blast
  show "read_version_str (show_int v @ nl @ tail) [] = Some (show_int v, tail)"
    by (rule read_version_line_show_int)
  show "strtol (c_str (show_int v)) = (max LONG_MIN (min LONG_MAX v), [])"
    by (simp add: c_str_show_int strtol_show_int_clamped)
next
  assume "LONG_MIN \<le> v \<and> v \<le> LONG_MAX"
  then show "strtol (c_str (show_int v)) = (v, [])"
    by (simp add: c_str_show_int strtol_show_int)
qed

lemma show_int_1: "show_int 1 = ''1''"
  by code_simp

lemma show_int_85: "show_int 85 = ''85''"
  by code_simp

lemma digit_chars:
  "digit_char 0 = CHR ''0''" "digit_char 1 = CHR ''1''" "digit_char 2 = CHR ''2''"
  "digit_char 3 = CHR ''3''" "digit_char 4 = CHR ''4''" "digit_char 5 = CHR ''5''"
  "digit_char 6 = CHR ''6''" "digit_char 7 = CHR ''7''" "digit_char 8 = CHR ''8''"
  "digit_char 9 = CHR ''9''"
  by code_simp+

lemma show_int_big: "show_int 99999999999999999999 = ''99999999999999999999''"
  by (simp add: show_int_def show_nat.simps digit_chars)

lemma show_int_long_max: "show_int 9223372036854775807 = ''9223372036854775807''"
  by (simp add: show_int_def show_nat.simps digit_chars)

lemma no_mention:
  "\<not> sublist ''99999999999999999999''
       (incompatible_version_message ''/t/version'' 9223372036854775807)"
  unfolding incompatible_version_message_def show_int_long_max
  by (simp add: nl_def TRACE_VERSION_def show_int_def show_nat.simps digit_chars sublist_Cons_right)

text \<open>
  C5, as stated, fails: a version file that records 99999999999999999999, which is not
  85, makes the constructor exit with status 65, but \<open>strtol\<close> has clamped the number
  to \<open>LONG_MAX\<close>, and the message mentions 9223372036854775807 and not the recorded
  number.
\<close>

theorem C5_counterexample:
  "TraceReader_new (\<lambda>rest. None) ''/t''
     (no_files\<lparr>tf_version := Open_ok (''99999999999999999999'' @ nl)\<rparr>) =
     Inl (EXIT_PROCESS 65 (incompatible_version_message ''/t/version'' 9223372036854775807)) \<and>
   \<not> sublist ''99999999999999999999''
       (incompatible_version_message ''/t/version'' 9223372036854775807)"
proof -
  let ?F = "no_files\<lparr>tf_version := Open_ok (''99999999999999999999'' @ nl)\<rparr>"
  have f: "tf_version ?F = Open_ok (show_int 99999999999999999999 @ nl @ [])"
    by (simp add: show_int_big)
  have l: "read_version_str (show_int 99999999999999999999 @ nl @ []) [] =
             Some (show_int 99999999999999999999, [])"
    by (rule read_version_line_show_int)
  have p: "strtol (c_str (show_int 99999999999999999999)) = (9223372036854775807, [])"
    by (simp add: c_str_show_int strtol_show_int_clamped LONG_MIN_def LONG_MAX_def)
  have a: "TraceReader_new (\<lambda>rest. None) ''/t'' ?F =
     Inl (EXIT_PROCESS 65 (incompatible_version_message ''/t/version'' 9223372036854775807))"
    unfolding TraceReader_new_parsed [OF f l p]
    by (simp add: TRACE_VERSION_def EX_DATAERR_def)
  from a no_mention show ?thesis by simp
qed

text \<open>
  The scenario of the specification: the version file holds \<open>1\<close> and a newline; and
  a version file that holds \<open>85\<close> and a newline passes the check and the header is
  decoded.
\<close>

theorem C5_parsed_version_check_witness:
  "TraceReader_new (\<lambda>rest. None) ''/t'' (no_files\<lparr>tf_version := Open_ok (''1'' @ nl)\<rparr>) =
     Inl (EXIT_PROCESS 65 (incompatible_version_message ''/t/version'' 1)) \<and>
   (\<exists>r. TraceReader_new (\<lambda>rest. Some sample_header) ''/t''
          (no_files\<lparr>tf_version := Open_ok (''85'' @ nl)\<rparr>) = Inr r \<and>
        bind_to_cpu r = 0 \<and> cpuid_records r = [])"
proof -
  let ?F1 = "no_files\<lparr>tf_version := Open_ok (''1'' @ nl)\<rparr>"
  let ?F85 = "no_files\<lparr>tf_version := Open_ok (''85'' @ nl)\<rparr>"
  note T1 = C5_parsed_version_check [of ?F1 "''1'' @ nl" "''1''" "[]" 1 "\<lambda>rest. None" "''/t''" 1 "[]"]
  note T85 = C5_parsed_version_check [of ?F85 "''85'' @ nl" "''85''" "[]" 85
      "\<lambda>rest. Some sample_header" "''/t''" 85 "[]"]
  note s1 = show_int_1 and s85 = show_int_85
  have r1: "(1 :: int) \<noteq> TRACE_VERSION" "LONG_MIN \<le> 1 \<and> 1 \<le> LONG_MAX"
    "(85 :: int) = TRACE_VERSION" "LONG_MIN \<le> 85 \<and> 85 \<le> LONG_MAX"
    by (simp_all add: TRACE_VERSION_def LONG_MIN_def LONG_MAX_def)
  have l1: "read_version_str (''1'' @ nl) [] = Some (''1'', [])"
    using T1 [THEN conjunct2, THEN conjunct1] by (simp add: s1)
  have p1: "strtol (c_str ''1'') = (1, [])"
    using T1 [THEN conjunct2, THEN conjunct2, THEN conjunct2, THEN mp, OF r1(2)] by (simp add: s1)
  have l85: "read_version_str (''85'' @ nl) [] = Some (''85'', [])"
    using T85 [THEN conjunct2, THEN conjunct1] by (simp add: s85)
  have p85: "strtol (c_str ''85'') = (85, [])"
    using T85 [THEN conjunct2, THEN conjunct2, THEN conjunct2, THEN mp, OF r1(4)] by (simp add: s85)
  have h1: "tf_version ?F1 = Open_ok (''1'' @ nl) \<and>
            read_version_str (''1'' @ nl) [] = Some (''1'', []) \<and> strtol (c_str ''1'') = (1, [])"
    using l1 p1 by simp
  have h85: "tf_version ?F85 = Open_ok (''85'' @ nl) \<and>
            read_version_str (''85'' @ nl) [] = Some (''85'', []) \<and> strtol (c_str ''85'') = (85, [])"
    using l85 p85 by simp
  have a: "TraceReader_new (\<lambda>rest. None) ''/t'' ?F1 =
     Inl (EXIT_PROCESS 65 (incompatible_version_message ''/t/version'' 1))"
    using T1 [THEN conjunct1, THEN mp, OF h1, THEN conjunct1, THEN mp, OF r1(1)]
    by (simp add: EX_DATAERR_def)
  have b: "\<exists>r. TraceReader_new (\<lambda>rest. Some sample_header) ''/t'' ?F85 = Inr r \<and>
        bind_to_cpu r = 0 \<and> cpuid_records r = []"
    using T85 [THEN conjunct1, THEN mp, OF h85, THEN conjunct2, THEN mp, OF r1(3)]
    by (auto simp: sample_header_def)
  from a b show ?thesis by blast
qed

section \<open>Mapped regions: results\<close>

lemma private_bit: "(and (x :: 32 word) MAP_PRIVATE = 0) = (\<not> bit x 1)"
  using and_exp_eq_0_iff_not_bit [of x 1] by (simp add: MAP_PRIVATE_def)

lemma try_clone_file_eq:
  "try_clone_file E w f = (if clone_succeeds E w f then Some (clone_name w f) else None)"
  by (simp add: try_clone_file_def clone_succeeds_def clone_name_def Let_def)

lemma try_hardlink_file_eq:
  "try_hardlink_file E w f = (if hardlink_succeeds E w f then hardlink_name w f else f)"
  by (simp add: try_hardlink_file_def hardlink_succeeds_def hardlink_name_def Let_def)

lemma prefix_take: "prefix xs s = (take (length xs) s = xs)"
proof
  assume "prefix xs s"
  then obtain zs where "s = xs @ zs" by (auto simp: prefix_def)
  then show "take (length xs) s = xs" by simp
next
  assume "take (length xs) s = xs"
  then have "s = xs @ drop (length xs) s" by (metis append_take_drop_id)
  then show "prefix xs s" by (metis prefixI)
qed

lemma prefix_SYSV: "prefix ''/SYSV'' s = (take 5 s = ''/SYSV'')"
proof -
  have five: "length ''/SYSV'' = 5" by simp
  show ?thesis using prefix_take [of "''/SYSV''" s] unfolding five .
qed


lemma first_match6:
  "first_match [(c1, r1), (c2, r2), (c3, r3), (c4, r4), (c5, r5), (c6, r6)] d =
     (if c1 then r1 else if c2 then r2 else if c3 then r3 else if c4 then r4
      else if c5 then r5 else if c6 then r6 else d)"
  by (simp add: first_match_def)

lemma private_clone:
  "(if and (km_flags km) MAP_PRIVATE = 0 then None else try_clone_file E w (km_fsname km)) =
     (if is_private km \<and> clone_succeeds E w (km_fsname km)
      then Some (clone_name w (km_fsname km)) else None)"
  by (simp add: is_private_def private_bit try_clone_file_eq)

lemma mapping_source_spec:
  "fst (mapping_source E w km st origin) = spec_mapping_source E w km st origin"
proof -
  let ?c1 = "origin = REMAP_MAPPING \<or> origin = PATCH_MAPPING"
  let ?c2 = "take 5 (km_fsname km) = ''/SYSV''"
  let ?c3 = "origin = SYSCALL_MAPPING \<and> (km_inode km = 0 \<or> km_fsname km = ''/dev/zero (deleted)'')"
  let ?c4 = "origin = RR_BUFFER_MAPPING"
  let ?c5 = "is_private km \<and> clone_succeeds E w (km_fsname km)"
  let ?c6 = "should_copy_mmap_region E km st \<and> (st_dev st, st_ino st) \<notin> files_assumed_immutable w"
  have l: "spec_mapping_source E w km st origin =
     (if ?c1 then Zero else if ?c2 then Trace else if ?c3 then Zero else if ?c4 then Zero
      else if ?c5 then File (clone_name w (km_fsname km))
      else if ?c6 then Trace else fallback_source E w km)"
    unfolding spec_mapping_source_def ladder_def first_match6 prefix_SYSV ..
  have r: "fst (mapping_source E w km st origin) =
     (if ?c1 then Zero else if ?c2 then Trace else if ?c3 then Zero else if ?c4 then Zero
      else if ?c5 then File (clone_name w (km_fsname km))
      else if ?c6 then Trace else fallback_source E w km)"
  proof -
    consider (1) "?c1" | (2) "\<not> ?c1" "?c2" | (3) "\<not> ?c1" "\<not> ?c2" "?c3"
      | (4) "\<not> ?c1" "\<not> ?c2" "\<not> ?c3" "?c4"
      | (5) "\<not> ?c1" "\<not> ?c2" "\<not> ?c3" "\<not> ?c4" "?c5"
      | (6) "\<not> ?c1" "\<not> ?c2" "\<not> ?c3" "\<not> ?c4" "\<not> ?c5" "?c6"
      | (7) "\<not> ?c1" "\<not> ?c2" "\<not> ?c3" "\<not> ?c4" "\<not> ?c5" "\<not> ?c6"
      by blast
    then show ?thesis
    proof cases
      case 1 then show ?thesis unfolding mapping_source_def Let_def private_clone by (simp only: if_P if_True if_False fst_conv)
    next
      case 2 then show ?thesis unfolding mapping_source_def Let_def private_clone
        by (simp only: if_P if_not_P if_True if_False simp_thms fst_conv)
    next
      case 3 then show ?thesis unfolding mapping_source_def Let_def private_clone
        by (simp only: if_P if_not_P if_True if_False simp_thms fst_conv)
    next
      case 4 then show ?thesis unfolding mapping_source_def Let_def private_clone
        by (simp only: if_P if_not_P if_True if_False simp_thms fst_conv)
    next
      case 5 then show ?thesis unfolding mapping_source_def Let_def private_clone
        by (simp only: if_P if_not_P if_True if_False simp_thms fst_conv option.case str_to_data_def)
    next
      case 6 then show ?thesis unfolding mapping_source_def Let_def private_clone
        by (simp only: if_P if_not_P if_True if_False simp_thms fst_conv option.case)
    next
      case 7
      have f: "fallback_source E w km =
          (case try_clone_file E w (km_fsname km) of
             Some n \<Rightarrow> File (str_to_data n)
           | None \<Rightarrow> File (str_to_data (try_hardlink_file E w (km_fsname km))))"
        by (simp add: fallback_source_def try_clone_file_eq try_hardlink_file_eq str_to_data_def)
      from 7 show ?thesis unfolding mapping_source_def Let_def private_clone f
        by (cases "try_clone_file E w (km_fsname km)"; simp only: if_P if_not_P if_True if_False simp_thms fst_conv option.case)
    qed
  qed
  show ?thesis unfolding l r ..
qed



lemma mapping_source_grows:
  "files_assumed_immutable w \<subseteq> snd (mapping_source E w km st origin)"
  unfolding mapping_source_def Let_def
  by (cases "try_clone_file E w (km_fsname km)"; simp add: subset_insertI)

lemma reaches_fallback_iff:
  "reaches_fallback E w km st origin \<longleftrightarrow>
     \<not> (origin = REMAP_MAPPING \<or> origin = PATCH_MAPPING) \<and>
     \<not> prefix ''/SYSV'' (km_fsname km) \<and>
     \<not> (origin = SYSCALL_MAPPING \<and> (km_inode km = 0 \<or> km_fsname km = ''/dev/zero (deleted)'')) \<and>
     origin \<noteq> RR_BUFFER_MAPPING \<and>
     \<not> (is_private km \<and> clone_succeeds E w (km_fsname km)) \<and>
     \<not> (should_copy_mmap_region E km st \<and> (st_dev st, st_ino st) \<notin> files_assumed_immutable w)"
  unfolding reaches_fallback_def ladder_def find_None_iff by simp blast

lemma mapping_source_fallback:
  assumes "reaches_fallback E w km st origin"
  shows "snd (mapping_source E w km st origin) =
           (if clone_succeeds E w (km_fsname km) then files_assumed_immutable w
            else insert (st_dev st, st_ino st) (files_assumed_immutable w))"
proof -
  from assms have c:
    "\<not> (origin = REMAP_MAPPING \<or> origin = PATCH_MAPPING)"
    "take 5 (km_fsname km) \<noteq> ''/SYSV''"
    "\<not> (origin = SYSCALL_MAPPING \<and> (km_inode km = 0 \<or> km_fsname km = ''/dev/zero (deleted)''))"
    "origin \<noteq> RR_BUFFER_MAPPING"
    "\<not> (is_private km \<and> clone_succeeds E w (km_fsname km))"
    "\<not> (should_copy_mmap_region E km st \<and> (st_dev st, st_ino st) \<notin> files_assumed_immutable w)"
    unfolding reaches_fallback_iff prefix_SYSV by blast+
  have p: "(if and (km_flags km) MAP_PRIVATE = 0 then None else try_clone_file E w (km_fsname km)) = None"
    using c(5) by (auto simp: is_private_def private_bit try_clone_file_eq)
  show ?thesis
    unfolding mapping_source_def Let_def p if_not_P [OF c(1)] if_not_P [OF c(2)]
      if_not_P [OF c(3)] if_not_P [OF c(4)] if_not_P [OF c(6)]
    by (simp add: try_clone_file_eq)
qed


lemma wmr_fst:
  "fst (write_mapped_region E w km st origin) =
     (if fst (mapping_source E w km st origin) = Trace then RECORD_IN_TRACE else DONT_RECORD_IN_TRACE)"
  by (simp add: write_mapped_region_def Let_def)

lemma wmr_mmaps:
  "cw_good (w_mmaps w) \<Longrightarrow>
   \<exists>m. cw_data (w_mmaps (snd (write_mapped_region E w km st origin))) = cw_data (w_mmaps w) @ [m] \<and>
       mm_source m = fst (mapping_source E w km st origin)"
  by (simp add: write_mapped_region_def Let_def cw_write_def cw_good_def)

lemma wmr_immutable:
  "files_assumed_immutable (snd (write_mapped_region E w km st origin)) =
     snd (mapping_source E w km st origin)"
  by (simp add: write_mapped_region_def Let_def)

text \<open>
  C2: a call of \<open>write_mapped_region\<close> on a writer whose \<open>MMAPS\<close> substream is good
  appends one record to that substream; the record's source is the one the first matching
  rule of the specification's ladder gives (rules 1 to 6 in order, the fallback otherwise),
  and the call returns \<open>RECORD_IN_TRACE\<close> exactly when that source is \<open>Trace\<close>.
\<close>

theorem C2_mapped_region_source:
  assumes "cw_good (w_mmaps w)" and "write_mapped_region E w km st origin = (ret, w')"
  shows "cw_data (w_mmaps w') = cw_data (w_mmaps w) @ [emitted_mmap w'] \<and>
         mm_source (emitted_mmap w') = spec_mapping_source E w km st origin \<and>
         (ret = RECORD_IN_TRACE \<longleftrightarrow> mm_source (emitted_mmap w') = Trace)"
proof -
  have w': "w' = snd (write_mapped_region E w km st origin)"
    and ret: "ret = fst (write_mapped_region E w km st origin)"
    using assms(2) by simp_all
  obtain m where m: "cw_data (w_mmaps w') = cw_data (w_mmaps w) @ [m]"
    "mm_source m = fst (mapping_source E w km st origin)"
    using wmr_mmaps [OF assms(1)] w' by blast
  have e: "emitted_mmap w' = m" by (simp add: emitted_mmap_def m(1))
  show ?thesis
    unfolding e using m by (simp add: ret wmr_fst mapping_source_spec)
qed

text \<open>
  The scenario of the specification: origin \<open>RR_BUFFER\<close> gives source \<open>Zero\<close> and
  \<open>DONT_RECORD_IN_TRACE\<close>.
\<close>

theorem C2_mapped_region_source_witness:
  "mm_source (emitted_mmap (snd (write_mapped_region cloning_env new_writer shared_lib_km
       shared_lib_stat RR_BUFFER_MAPPING))) = Zero \<and>
   fst (write_mapped_region cloning_env new_writer shared_lib_km shared_lib_stat RR_BUFFER_MAPPING)
     = DONT_RECORD_IN_TRACE"
proof -
  have g: "cw_good (w_mmaps new_writer)"
    by (simp add: new_writer_def TraceWriter_new_def cw_good_def)
  have s: "spec_mapping_source cloning_env new_writer shared_lib_km shared_lib_stat RR_BUFFER_MAPPING = Zero"
    by (simp add: spec_mapping_source_def ladder_def first_match_def shared_lib_km_def)
  show ?thesis
    using C2_mapped_region_source [OF g prod.collapse [symmetric], of cloning_env shared_lib_km
        shared_lib_stat RR_BUFFER_MAPPING] s
    by (cases "fst (write_mapped_region cloning_env new_writer shared_lib_km shared_lib_stat
          RR_BUFFER_MAPPING)") auto
qed

text \<open>
  C3, as stated, fails: a shared mapping of a file (not copied by
  \<open>should_copy_mmap_region\<close>) in a session with file cloning reaches the fallback rule,
  the clone made there succeeds, and \<open>(st_dev, st_ino)\<close> is not put into
  \<open>files_assumed_immutable\<close>.
\<close>

theorem C3_counterexample:
  "reaches_fallback cloning_env new_writer shared_lib_km shared_lib_stat EXEC_MAPPING \<and>
   (st_dev shared_lib_stat, st_ino shared_lib_stat) \<notin>
     files_assumed_immutable (snd (write_mapped_region cloning_env new_writer shared_lib_km
       shared_lib_stat EXEC_MAPPING))"
proof -
  have c: "clone_succeeds cloning_env new_writer (km_fsname shared_lib_km)"
    by (simp add: clone_succeeds_def cloning_env_def)
  have p: "\<not> is_private shared_lib_km"
    by (simp add: is_private_def shared_lib_km_def)
  have r: "reaches_fallback cloning_env new_writer shared_lib_km shared_lib_stat EXEC_MAPPING"
    unfolding reaches_fallback_iff using p
    by (simp add: shared_lib_km_def cloning_env_def)
  have "files_assumed_immutable (snd (write_mapped_region cloning_env new_writer shared_lib_km
       shared_lib_stat EXEC_MAPPING)) = {}"
    unfolding wmr_immutable mapping_source_fallback [OF r] using c
    by (simp add: new_writer_def TraceWriter_new_def)
  with r show ?thesis by simp
qed

lemma writer_call_immutable:
  assumes "writer_call E X c w = Inr w'"
  shows "files_assumed_immutable w \<subseteq> files_assumed_immutable w'"
proof (cases c)
  case (Write_frame frame)
  with assms have "write_frame X frame w = Inr w'" by (simp add: writer_call_def)
  then have "files_assumed_immutable w' = files_assumed_immutable w"
    by (auto simp: write_frame_def Let_def tick_time_def split: if_splits)
  then show ?thesis by simp
next
  case (Write_task_event event)
  with assms have "write_task_event event w = Inr w'" by (simp add: writer_call_def)
  then have "files_assumed_immutable w' = files_assumed_immutable w"
    by (auto simp: write_task_event_def Let_def split: TaskEventPayload.splits)
  then show ?thesis by simp
next
  case (Write_mapped_region km st origin)
  with assms have "w' = snd (write_mapped_region E w km st origin)" by (simp add: writer_call_def)
  then show ?thesis by (simp add: wmr_immutable mapping_source_grows)
next
  case (Write_raw rec_tid d addr)
  with assms have "w' = write_raw rec_tid d addr w" by (simp add: writer_call_def)
  then show ?thesis by (simp add: write_raw_def Let_def)
next
  case (Write_generic d)
  with assms have "w' = write_generic d w" by (simp add: writer_call_def)
  then show ?thesis by (simp add: write_generic_def Let_def)
qed

lemma writer_calls_immutable:
  "writer_calls E X cs w = Inr w' \<Longrightarrow> files_assumed_immutable w \<subseteq> files_assumed_immutable w'"
proof (induction cs arbitrary: w)
  case Nil
  then show ?case by simp
next
  case (Cons c cs)
  from Cons.prems obtain w1 where w1: "writer_call E X c w = Inr w1" "writer_calls E X cs w1 = Inr w'"
    by (auto simp: and_then_def split: sum.splits)
  from writer_call_immutable [OF w1(1)] Cons.IH [OF w1(2)] show ?case by blast
qed

lemma mapping_source_not_fallback:
  assumes "\<not> reaches_fallback E w km st origin"
  shows "snd (mapping_source E w km st origin) = files_assumed_immutable w"
proof -
  let ?c1 = "origin = REMAP_MAPPING \<or> origin = PATCH_MAPPING"
  let ?c2 = "take 5 (km_fsname km) = ''/SYSV''"
  let ?c3 = "origin = SYSCALL_MAPPING \<and> (km_inode km = 0 \<or> km_fsname km = ''/dev/zero (deleted)'')"
  let ?c4 = "origin = RR_BUFFER_MAPPING"
  let ?c5 = "is_private km \<and> clone_succeeds E w (km_fsname km)"
  let ?c6 = "should_copy_mmap_region E km st \<and> (st_dev st, st_ino st) \<notin> files_assumed_immutable w"
  from assms have "?c1 \<or> ?c2 \<or> ?c3 \<or> ?c4 \<or> ?c5 \<or> ?c6"
    unfolding reaches_fallback_iff prefix_SYSV by blast
  then consider (1) "?c1" | (2) "\<not> ?c1" "?c2" | (3) "\<not> ?c1" "\<not> ?c2" "?c3"
    | (4) "\<not> ?c1" "\<not> ?c2" "\<not> ?c3" "?c4"
    | (5) "\<not> ?c1" "\<not> ?c2" "\<not> ?c3" "\<not> ?c4" "?c5"
    | (6) "\<not> ?c1" "\<not> ?c2" "\<not> ?c3" "\<not> ?c4" "\<not> ?c5" "?c6"
    by blast
  then show ?thesis
  proof cases
    case 1 then show ?thesis unfolding mapping_source_def Let_def private_clone
      by (simp only: if_P if_True if_False snd_conv)
  next
    case 2 then show ?thesis unfolding mapping_source_def Let_def private_clone
      by (simp only: if_P if_not_P if_True if_False simp_thms snd_conv)
  next
    case 3 then show ?thesis unfolding mapping_source_def Let_def private_clone
      by (simp only: if_P if_not_P if_True if_False simp_thms snd_conv)
  next
    case 4 then show ?thesis unfolding mapping_source_def Let_def private_clone
      by (simp only: if_P if_not_P if_True if_False simp_thms snd_conv)
  next
    case 5 then show ?thesis unfolding mapping_source_def Let_def private_clone
      by (simp only: if_P if_not_P if_True if_False simp_thms snd_conv option.case)
  next
    case 6 then show ?thesis unfolding mapping_source_def Let_def private_clone
      by (simp only: if_P if_not_P if_True if_False simp_thms snd_conv option.case)
  qed
qed

text \<open>
  C3, amended: a call of \<open>write_mapped_region\<close> that reaches the fallback rule and whose
  file clone fails there puts \<open>(st_dev, st_ino)\<close> into \<open>files_assumed_immutable\<close>, and
  nothing else; when the clone made in the fallback rule succeeds, and when an earlier
  rule decides, the call leaves the set as it was; and no sequence of calls on a writer
  removes an element from that set.
\<close>

theorem C3_immutable_set:
  "(reaches_fallback E w km st origin \<and> \<not> clone_succeeds E w (km_fsname km) \<longrightarrow>
      (st_dev st, st_ino st) \<in>
        files_assumed_immutable (snd (write_mapped_region E w km st origin)) \<and>
      files_assumed_immutable (snd (write_mapped_region E w km st origin)) =
        insert (st_dev st, st_ino st) (files_assumed_immutable w)) \<and>
   (reaches_fallback E w km st origin \<and> clone_succeeds E w (km_fsname km) \<longrightarrow>
      files_assumed_immutable (snd (write_mapped_region E w km st origin)) =
        files_assumed_immutable w) \<and>
   (\<not> reaches_fallback E w km st origin \<longrightarrow>
      files_assumed_immutable (snd (write_mapped_region E w km st origin)) =
        files_assumed_immutable w) \<and>
   (writer_calls E X cs w = Inr w' \<longrightarrow> files_assumed_immutable w \<subseteq> files_assumed_immutable w')"
  using mapping_source_fallback [of E w km st origin] writer_calls_immutable [of E X cs w w']
    mapping_source_not_fallback [of E w km st origin]
  by (simp add: wmr_immutable)

text \<open>
  A shared mapping: in a session without file cloning the pair is inserted; in a session
  with file cloning the clone succeeds and nothing is inserted; and a mapping of the rr
  buffer, which an earlier rule decides, leaves the set empty.
\<close>

theorem C3_immutable_set_witness:
  "files_assumed_immutable (snd (write_mapped_region plain_env new_writer shared_lib_km
       shared_lib_stat EXEC_MAPPING)) = {(8, 7)} \<and>
   files_assumed_immutable (snd (write_mapped_region cloning_env new_writer shared_lib_km
       shared_lib_stat EXEC_MAPPING)) = {} \<and>
   files_assumed_immutable (snd (write_mapped_region plain_env new_writer shared_lib_km
       shared_lib_stat RR_BUFFER_MAPPING)) = {} \<and>
   files_assumed_immutable new_writer \<subseteq>
     files_assumed_immutable (snd (write_mapped_region plain_env new_writer shared_lib_km
       shared_lib_stat EXEC_MAPPING))"
proof -
  have c: "\<not> clone_succeeds plain_env new_writer (km_fsname shared_lib_km)"
    by (simp add: clone_succeeds_def plain_env_def)
  have c': "clone_succeeds cloning_env new_writer (km_fsname shared_lib_km)"
    by (simp add: clone_succeeds_def cloning_env_def)
  have p: "\<not> is_private shared_lib_km"
    by (simp add: is_private_def shared_lib_km_def)
  have r: "reaches_fallback plain_env new_writer shared_lib_km shared_lib_stat EXEC_MAPPING"
    unfolding reaches_fallback_iff using p
    by (simp add: shared_lib_km_def plain_env_def)
  have r': "reaches_fallback cloning_env new_writer shared_lib_km shared_lib_stat EXEC_MAPPING"
    unfolding reaches_fallback_iff using p
    by (simp add: shared_lib_km_def cloning_env_def)
  have n: "\<not> reaches_fallback plain_env new_writer shared_lib_km shared_lib_stat RR_BUFFER_MAPPING"
    unfolding reaches_fallback_iff by simp
  have e: "files_assumed_immutable new_writer = {}"
    by (simp add: new_writer_def TraceWriter_new_def)
  have run: "writer_calls plain_env sample_externals
      [Write_mapped_region shared_lib_km shared_lib_stat EXEC_MAPPING] new_writer =
      Inr (snd (write_mapped_region plain_env new_writer shared_lib_km shared_lib_stat EXEC_MAPPING))"
    by (simp add: writer_call_def and_then_def)
  have a: "files_assumed_immutable (snd (write_mapped_region plain_env new_writer shared_lib_km
       shared_lib_stat EXEC_MAPPING)) = {(8, 7)}"
    using C3_immutable_set [of plain_env new_writer shared_lib_km shared_lib_stat EXEC_MAPPING,
        THEN conjunct1] c r
    by (simp add: e shared_lib_stat_def)
  have b: "files_assumed_immutable (snd (write_mapped_region cloning_env new_writer shared_lib_km
       shared_lib_stat EXEC_MAPPING)) = {}"
    using C3_immutable_set [of cloning_env new_writer shared_lib_km shared_lib_stat EXEC_MAPPING,
        THEN conjunct2, THEN conjunct1] c' r'
    by (simp add: e)
  have d: "files_assumed_immutable (snd (write_mapped_region plain_env new_writer shared_lib_km
       shared_lib_stat RR_BUFFER_MAPPING)) = {}"
    using C3_immutable_set [of plain_env new_writer shared_lib_km shared_lib_stat
        RR_BUFFER_MAPPING, THEN conjunct2, THEN conjunct2, THEN conjunct1] n
    by (simp add: e)
  have g: "files_assumed_immutable new_writer \<subseteq>
     files_assumed_immutable (snd (write_mapped_region plain_env new_writer shared_lib_km
       shared_lib_stat EXEC_MAPPING))"
    using C3_immutable_set [of plain_env new_writer shared_lib_km shared_lib_stat EXEC_MAPPING
        sample_externals "[Write_mapped_region shared_lib_km shared_lib_stat EXEC_MAPPING]"
        "snd (write_mapped_region plain_env new_writer shared_lib_km shared_lib_stat EXEC_MAPPING)",
        THEN conjunct2, THEN conjunct2, THEN conjunct2] run
    by simp
  from a b d g show ?thesis by simp
qed

section \<open>Substream readers: lemmas\<close>

lemma length_le_bytes [simp]: "length (le_bytes n v) = n"
  by (induction n arbitrary: v) auto

lemma le_val_le_bytes: "v < 256 ^ n \<Longrightarrow> le_val (le_bytes n v) = v"
proof (induction n arbitrary: v)
  case 0
  then show ?case by simp
next
  case (Suc n)
  have "v div 256 < 256 ^ n"
    using Suc.prems by (simp add: less_mult_imp_div_less mult.commute)
  then have "le_val (le_bytes n (v div 256)) = v div 256" by (rule Suc.IH)
  moreover have "unat (of_nat (v mod 256) :: byte) = v mod 256"
    by (simp add: unat_of_nat)
  ultimately show ?case by simp
qed

lemma from_to_bytes64 [simp]: "from_bytes (to_bytes (w :: 64 word)) = w"
proof -
  have "unat w < 2 ^ 64" using unsigned_less [of w] by simp
  then have "unat w < 256 ^ 8" by simp
  then show ?thesis by (simp add: to_bytes_def from_bytes_def le_val_le_bytes)
qed

lemma from_to_bytes32 [simp]: "from_bytes (to_bytes (w :: 32 word)) = w"
proof -
  have "unat w < 2 ^ 32" using unsigned_less [of w] by simp
  then have "unat w < 256 ^ 4" by simp
  then show ?thesis by (simp add: to_bytes_def from_bytes_def le_val_le_bytes)
qed

lemma from_bytes_single [simp]: "from_bytes [b] = (b :: byte)"
  by (simp add: from_bytes_def)

lemma length_to_bytes64 [simp]: "length (to_bytes (w :: 64 word)) = 8"
  by (simp add: to_bytes_def)

lemma length_to_bytes32 [simp]: "length (to_bytes (w :: 32 word)) = 4"
  by (simp add: to_bytes_def)

lemma remaining_advance: "remaining (advance n r) = drop n (remaining r)"
  by (simp add: remaining_def advance_def add.commute)

lemma advance_advance: "advance m (advance n r) = advance (n + m) r"
  by (simp add: advance_def add.assoc)

lemma remaining_step:
  "remaining r = xs @ rest \<Longrightarrow> length xs = n \<Longrightarrow> remaining (advance n r) = rest"
  by (simp add: remaining_advance)

lemma cr_read_prefix:
  "remaining r = xs @ rest \<Longrightarrow> length xs = n \<Longrightarrow> cr_read n r = Inr (xs, advance n r)"
  by (simp add: cr_read_def)

lemma read_scalar64:
  "remaining r = to_bytes (v :: 64 word) @ rest \<Longrightarrow> read_scalar r = Inr (v, advance 8 r)"
  by (simp add: read_scalar_def cr_read_def and_then_def)

lemma read_scalar32:
  "remaining r = to_bytes (v :: 32 word) @ rest \<Longrightarrow> read_scalar r = Inr (v, advance 4 r)"
  by (simp add: read_scalar_def cr_read_def and_then_def)

lemma read_scalar8:
  "remaining r = (b :: byte) # rest \<Longrightarrow> read_scalar r = Inr (b, advance 1 r)"
  by (simp add: read_scalar_def cr_read_def and_then_def)

lemma BasicInfo_of_bytes_bytes [simp]: "BasicInfo_of_bytes (BasicInfo_bytes b) = b"
  by (simp add: BasicInfo_of_bytes_def BasicInfo_bytes_def)

lemma length_BasicInfo_bytes [simp]: "length (BasicInfo_bytes b) = 32"
  by (simp add: BasicInfo_bytes_def)

lemma arch_of_char_arch_char [simp]: "arch_of_char (arch_char a) = Some a"
  by (cases a) (simp_all add: arch_of_char_def arch_char_def)


lemma read_frame_no_exec:
  assumes "remaining (r_events s) = BasicInfo_bytes bi @ rest" "\<not> has_exec_info X (bi_ev bi)"
  shows "read_frame X s =
           finish_frame s (TraceFrame_make (bi_global_time bi) (bi_tid bi) (bi_ev bi) (bi_ticks bi)
                            (bi_monotonic_sec bi)) 32"
  using assms
  by (simp add: read_frame_def cr_read_def and_then_def sizeof_BasicInfo_def Let_def
      TraceFrame_make_def tick_time_def finish_frame_def)

lemma read_frame_exec:
  assumes r: "remaining (r_events s) =
                BasicInfo_bytes bi @ arch_char a # regs @ fmt # to_bytes (len :: 32 word) @ rest"
    and e: "has_exec_info X (bi_ev bi)"
    and l: "length regs = user_regs_size a"
  shows "read_frame X s =
     (let frame = (TraceFrame_make (bi_global_time bi) (bi_tid bi) (bi_ev bi) (bi_ticks bi)
                     (bi_monotonic_sec bi))\<lparr>recorded_regs := \<lparr>regs_arch = a, regs_ptrace = regs\<rparr>\<rparr>
      in if 0 <s len then
           if unat len \<le> length rest then
             (case set_to_raw_data X (event_arch X (bi_ev bi)) fmt (take (unat len) rest)
                     (xsave_layout_from_trace X (cpuid_records s)) of
                None \<Rightarrow> Inl (FATAL ''Invalid XSAVE data in trace'')
              | Some er \<Rightarrow> finish_frame s (frame\<lparr>recorded_extra_regs := er\<rparr>)
                            (38 + user_regs_size a + unat len))
           else Inl READ_PAST_END
         else if fmt \<noteq> format_NONE then Inl (ASSERT ''extra_reg_format == ExtraRegisters::NONE'')
         else finish_frame s (frame\<lparr>recorded_extra_regs :=
                ExtraRegisters_empty (event_arch X (bi_ev bi))\<rparr>) (38 + user_regs_size a))"
proof -
  define p1 where "p1 = advance 32 (r_events s)"
  define p2 where "p2 = advance 1 p1"
  define p3 where "p3 = advance (length regs) p2"
  define p4 where "p4 = advance 1 p3"
  define p5 where "p5 = advance 4 p4"
  have r1: "remaining p1 = arch_char a # regs @ fmt # to_bytes len @ rest"
    unfolding p1_def by (rule remaining_step [OF r]) simp
  have r2: "remaining p2 = regs @ fmt # to_bytes len @ rest"
    unfolding p2_def by (rule remaining_step [of _ "[arch_char a]"]) (simp_all add: r1)
  have r3: "remaining p3 = fmt # to_bytes len @ rest"
    unfolding p3_def by (rule remaining_step [OF r2]) simp
  have r4: "remaining p4 = to_bytes len @ rest"
    unfolding p4_def by (rule remaining_step [of _ "[fmt]"]) (simp_all add: r3)
  have r5: "remaining p5 = rest"
    unfolding p5_def by (rule remaining_step [OF r4]) simp
  have s1: "cr_read sizeof_BasicInfo (r_events s) = Inr (BasicInfo_bytes bi, p1)"
    unfolding p1_def using cr_read_prefix [OF r] by (simp add: sizeof_BasicInfo_def)
  have s2: "read_scalar p1 = Inr (arch_char a, p2)"
    unfolding p2_def using read_scalar8 [OF r1] by simp
  have s3: "cr_read (user_regs_size a) p2 = Inr (regs, p3)"
    unfolding p3_def using cr_read_prefix [OF r2, of "length regs"] by (simp add: l)
  have s4: "read_scalar p3 = Inr (fmt, p4)"
    unfolding p4_def using read_scalar8 [OF r3] by simp
  have s5: "read_scalar p4 = Inr (len, p5)"
    unfolding p5_def using read_scalar32 [OF r4] by simp
  have s6: "cr_read (unat len) p5 =
              (if unat len \<le> length rest then Inr (take (unat len) rest, advance (unat len) p5)
               else Inl READ_PAST_END)"
    by (simp add: cr_read_def r5)
  have e5: "p5 = advance (38 + user_regs_size a) (r_events s)"
    unfolding p5_def p4_def p3_def p2_def p1_def by (simp add: advance_def l)
  have e6: "advance (unat len) p5 = advance (38 + user_regs_size a + unat len) (r_events s)"
    unfolding e5 by (simp add: advance_def)
  show ?thesis
    unfolding read_frame_def s1
    by (simp add: and_then_def Let_def e TraceFrame_make_def s2 s3 s4 s5 s6 e6
        finish_frame_def tick_time_def split: option.splits)
      (simp add: e5)
qed

lemma cr_read_Inr: "cr_read n r = Inr (bs, r') \<Longrightarrow> r' = advance n r"
  by (auto simp: cr_read_def split: if_splits)

lemma read_scalar_Inr: "read_scalar r = Inr (v :: 'a::len word, r') \<Longrightarrow> r' = advance (LENGTH('a) div 8) r"
  by (auto simp: read_scalar_def and_then_def cr_read_def split: if_splits)

lemma cr_read_saved:
  "cr_read n (r\<lparr>cr_saved := v\<rparr>) =
     (case cr_read n r of Inl e \<Rightarrow> Inl e | Inr (bs, r') \<Rightarrow> Inr (bs, r'\<lparr>cr_saved := v\<rparr>))"
  by (simp add: cr_read_def remaining_def advance_def)

lemma read_scalar_saved:
  "read_scalar (r\<lparr>cr_saved := v\<rparr>) =
     (case read_scalar r of Inl e \<Rightarrow> Inl e | Inr (x, r') \<Rightarrow> Inr (x, r'\<lparr>cr_saved := v\<rparr>))"
  by (simp add: read_scalar_def cr_read_saved and_then_def split: sum.splits)

lemma advance_saved [simp]: "cr_saved (advance n r) = cr_saved r"
  by (simp add: advance_def)

lemma advance_data [simp]: "cr_data (advance n r) = cr_data r"
  by (simp add: advance_def)

lemma advance_pos [simp]: "cr_pos (advance n r) = cr_pos r + n"
  by (simp add: advance_def)

lemma read_frame_effect:
  assumes "read_frame X s = Inr (f, s')"
  shows "\<exists>n. s' = s\<lparr>r_events := advance n (r_events s), global_time := global_time s + 1\<rparr>
           \<and> frame_time f = global_time s + 1"
  using assms
  unfolding read_frame_def and_then_def Let_def tick_time_def
  by (auto split: if_splits option.splits prod.splits sum.splits simp: TraceFrame_make_def advance_advance
      dest!: cr_read_Inr read_scalar_Inr)


lemma remaining_saved [simp]: "remaining (r\<lparr>cr_saved := v\<rparr>) = remaining r"
  by (simp add: remaining_def)

lemma advance_saved_upd: "advance n (r\<lparr>cr_saved := v\<rparr>) = (advance n r)\<lparr>cr_saved := v\<rparr>"
  by (simp add: advance_def)

lemma read_frame_saved:
  assumes "read_frame X s = Inr (f, s')"
  shows "read_frame X (s\<lparr>r_events := (r_events s)\<lparr>cr_saved := v\<rparr>\<rparr>) =
           Inr (f, s'\<lparr>r_events := (r_events s')\<lparr>cr_saved := v\<rparr>\<rparr>)"
  using assms
  unfolding read_frame_def and_then_def Let_def tick_time_def read_scalar_def cr_read_def
  by (auto split: if_split_asm option.split_asm prod.split_asm sum.split_asm
      simp: advance_saved_upd)


lemma read_frame_not_at_end: "read_frame X s = Inr (f, s') \<Longrightarrow> \<not> at_end s"
  by (auto simp: read_frame_def and_then_def cr_read_def at_end_def cr_at_end_def
      sizeof_BasicInfo_def split: if_splits)

lemma peek_frame_at_end:
  "at_end s \<Longrightarrow>
   peek_frame X s = Inr (TraceFrame_default, s\<lparr>r_events := (r_events s)\<lparr>cr_saved := None\<rparr>\<rparr>)"
  by (simp add: peek_frame_def at_end_def cr_at_end_def save_state_def restore_state_def
      and_then_def Let_def)

lemma peek_frame_Inr:
  assumes "read_frame X s = Inr (f, s')"
  shows "peek_frame X s = Inr (f, s\<lparr>r_events := (r_events s)\<lparr>cr_saved := None\<rparr>\<rparr>)"
proof -
  have sv: "s\<lparr>r_events := save_state (r_events s)\<rparr> =
              s\<lparr>r_events := (r_events s)\<lparr>cr_saved := Some (cr_pos (r_events s))\<rparr>\<rparr>"
    by (simp add: save_state_def)
  have ne: "\<not> at_end (s\<lparr>r_events := save_state (r_events s)\<rparr>)"
    using read_frame_not_at_end [OF assms]
    by (simp add: at_end_def cr_at_end_def save_state_def)
  from read_frame_effect [OF assms] obtain n where
    s': "s' = s\<lparr>r_events := advance n (r_events s), global_time := global_time s + 1\<rparr>"
    by blast
  show ?thesis
    using ne unfolding peek_frame_def Let_def
    by (simp add: sv read_frame_saved [OF assms] and_then_def restore_state_def s' advance_def)
qed

section \<open>The reader clock: results\<close>

lemma TraceReader_new_time:
  "TraceReader_new unpack dir files = Inr r \<Longrightarrow> global_time r = 0"
  unfolding TraceReader_new_def Let_def
  by (auto split: version_fd.splits option.splits prod.splits if_splits)

lemma upt_Suc_shift: "map g [0..<Suc n] = g 0 # map (\<lambda>i. g (Suc i)) [0..<n]"
proof -
  have "[0..<Suc n] = 0 # map Suc [0..<n]"
    by (simp add: map_Suc_upt upt_conv_Cons del: upt_Suc)
  then show ?thesis by (simp add: o_def del: upt_Suc)
qed

lemma read_frames_time:
  "read_frames X n s = Inr (fs, s') \<Longrightarrow>
     global_time s' = global_time s + of_nat n \<and>
     map frame_time fs = map (\<lambda>i. global_time s + of_nat (Suc i)) [0..<n]"
proof (induction n arbitrary: s fs)
  case 0
  then show ?case by simp
next
  case (Suc n)
  from Suc.prems obtain f s1 fs1 where
    f: "read_frame X s = Inr (f, s1)" and r: "read_frames X n s1 = Inr (fs1, s')" and fs: "fs = f # fs1"
    by (auto simp: and_then_def split: sum.splits prod.splits)
  from read_frame_effect [OF f] have t: "global_time s1 = global_time s + 1" "frame_time f = global_time s + 1"
    by auto
  from Suc.IH [OF r] have ih: "global_time s' = global_time s1 + of_nat n"
    "map frame_time fs1 = map (\<lambda>i. global_time s1 + of_nat (Suc i)) [0..<n]" by auto
  have a: "global_time s' = global_time s + of_nat (Suc n)"
    unfolding ih(1) t(1) by simp
  have b: "map frame_time fs = map (\<lambda>i. global_time s + of_nat (Suc i)) [0..<Suc n]"
    unfolding upt_Suc_shift fs list.map ih(2) t by (simp add: add.assoc del: upt_Suc)
  from a b show ?case by blast
qed


text \<open>
  C4: a reader that the constructor returns has \<open>global_time\<close> 0; a \<open>read_frame\<close> that
  returns has advanced \<open>global_time\<close> by one and returns a frame whose time is the new
  clock value; a frame on \<open>EVENTS\<close> (without exec info, or with exec info and extra
  registers that are accepted) whose time is not the clock's next value stops the read
  with the assertion; so a new reader that has read \<open>N\<close> frames has \<open>global_time\<close>
  \<open>N\<close>, and the frames read have the times 1 to \<open>N\<close>.
\<close>

theorem C4_reader_clock:
  "(TraceReader_new unpack dir files = Inr r \<longrightarrow> global_time r = 0) \<and>
   (read_frame X s = Inr (f, s') \<longrightarrow> global_time s' = global_time s + 1 \<and> frame_time f = global_time s') \<and>
   (remaining (r_events s) = BasicInfo_bytes bi @ rest \<and> \<not> has_exec_info X (bi_ev bi) \<and>
      bi_global_time bi \<noteq> global_time s + 1 \<longrightarrow>
      read_frame X s = Inl (ASSERT ''time() == frame.time()'')) \<and>
   (TraceReader_new unpack dir files = Inr r \<and> read_frames X N r = Inr (fs, r') \<longrightarrow>
      global_time r' = of_nat N \<and> map frame_time fs = map (\<lambda>i. of_nat (Suc i)) [0..<N]) \<and>
   (remaining (r_events s) =
      BasicInfo_bytes bi @ arch_char a # regs @ fmt # to_bytes (len :: 32 word) @ rest' \<and>
    has_exec_info X (bi_ev bi) \<and> length regs = user_regs_size a \<and>
    bi_global_time bi \<noteq> global_time s + 1 \<and>
    (if 0 <s len
     then unat len \<le> length rest' \<and>
          set_to_raw_data X (event_arch X (bi_ev bi)) fmt (take (unat len) rest')
            (xsave_layout_from_trace X (cpuid_records s)) \<noteq> None
     else fmt = format_NONE) \<longrightarrow>
      read_frame X s = Inl (ASSERT ''time() == frame.time()''))"
proof (intro conjI impI)
  assume "TraceReader_new unpack dir files = Inr r"
  then show "global_time r = 0" by (rule TraceReader_new_time)
next
  assume a: "read_frame X s = Inr (f, s')"
  from read_frame_effect [OF a] show "global_time s' = global_time s + 1" by auto
  from read_frame_effect [OF a] show "frame_time f = global_time s'" by auto
next
  assume a: "remaining (r_events s) = BasicInfo_bytes bi @ rest \<and> \<not> has_exec_info X (bi_ev bi) \<and>
      bi_global_time bi \<noteq> global_time s + 1"
  then have r: "remaining (r_events s) = BasicInfo_bytes bi @ rest"
    and e: "\<not> has_exec_info X (bi_ev bi)" and t: "bi_global_time bi \<noteq> global_time s + 1"
    by blast+
  show "read_frame X s = Inl (ASSERT ''time() == frame.time()'')"
    unfolding read_frame_no_exec [OF r e] using t
    by (auto simp: finish_frame_def TraceFrame_make_def)
next
  assume a: "TraceReader_new unpack dir files = Inr r \<and> read_frames X N r = Inr (fs, r')"
  then have z: "global_time r = 0" using TraceReader_new_time by blast
  from a have rf: "read_frames X N r = Inr (fs, r')" by blast
  from read_frames_time [OF rf] z
  show "global_time r' = of_nat N" by simp
  from read_frames_time [OF rf] z
  show "map frame_time fs = map (\<lambda>i. of_nat (Suc i)) [0..<N]" by simp
next
  assume a: "remaining (r_events s) =
      BasicInfo_bytes bi @ arch_char a # regs @ fmt # to_bytes (len :: 32 word) @ rest' \<and>
    has_exec_info X (bi_ev bi) \<and> length regs = user_regs_size a \<and>
    bi_global_time bi \<noteq> global_time s + 1 \<and>
    (if 0 <s len
     then unat len \<le> length rest' \<and>
          set_to_raw_data X (event_arch X (bi_ev bi)) fmt (take (unat len) rest')
            (xsave_layout_from_trace X (cpuid_records s)) \<noteq> None
     else fmt = format_NONE)"
  then have r: "remaining (r_events s) =
      BasicInfo_bytes bi @ arch_char a # regs @ fmt # to_bytes len @ rest'"
    and e: "has_exec_info X (bi_ev bi)" and l: "length regs = user_regs_size a"
    and t: "bi_global_time bi \<noteq> global_time s + 1"
    and c: "if 0 <s len
     then unat len \<le> length rest' \<and>
          set_to_raw_data X (event_arch X (bi_ev bi)) fmt (take (unat len) rest')
            (xsave_layout_from_trace X (cpuid_records s)) \<noteq> None
     else fmt = format_NONE"
    by blast+
  show "read_frame X s = Inl (ASSERT ''time() == frame.time()'')"
  proof (cases "0 <s len")
    case True
    with c obtain er where "unat len \<le> length rest'"
      "set_to_raw_data X (event_arch X (bi_ev bi)) fmt (take (unat len) rest')
            (xsave_layout_from_trace X (cpuid_records s)) = Some er"
      by auto
    then show ?thesis
      unfolding read_frame_exec [OF r e l] using True t
      by (simp add: Let_def finish_frame_def TraceFrame_make_def)
  next
    case False
    with c have "fmt = format_NONE" by simp
    then show ?thesis
      unfolding read_frame_exec [OF r e l] using False t
      by (simp add: Let_def finish_frame_def TraceFrame_make_def)
  qed
qed

section \<open>Raw data and extra registers: results\<close>

lemma read_scalar64_eq:
  "read_scalar r =
     (if 8 \<le> length (remaining r) then Inr (from_bytes (take 8 (remaining r)) :: 64 word, advance 8 r)
      else Inl READ_PAST_END)"
  by (simp add: read_scalar_def cr_read_def and_then_def)

lemma save_restore:
  "restore_state (advance n (save_state r)) = r\<lparr>cr_saved := None\<rparr>"
  by (simp add: restore_state_def advance_def save_state_def)

lemma remaining_save [simp]: "remaining (save_state r) = remaining r"
  by (simp add: save_state_def remaining_def)

lemma raw_for_frame_unfold:
  "read_raw_data_for_frame frame d s =
     (case next_time (r_data_header s) of
        None \<Rightarrow> if cr_at_end (r_data_header s) then Inr (False, d, s) else Inl READ_PAST_END
      | Some time \<Rightarrow>
          if time <s frame_time frame then Inl (ASSERT ''time >= frame.time()'')
          else if frame_time frame <s time
            then Inr (False, d, s\<lparr>r_data_header := (r_data_header s)\<lparr>cr_saved := None\<rparr>\<rparr>)
          else and_then (read_raw_data (s\<lparr>r_data_header := (r_data_header s)\<lparr>cr_saved := None\<rparr>\<rparr>))
                 (\<lambda>(d', s2). Inr (True, d', s2)))"
proof (cases "cr_at_end (r_data_header s)")
  case True
  then show ?thesis
    by (simp add: read_raw_data_for_frame_def next_time_def cr_at_end_def)
next
  case False
  show ?thesis
  proof (cases "8 \<le> length (remaining (r_data_header s))")
    case True
    then show ?thesis using False
      by (simp add: read_raw_data_for_frame_def next_time_def read_scalar64_eq and_then_def
          Let_def save_restore)
  next
    case f: False
    then show ?thesis using False
      by (simp add: read_raw_data_for_frame_def next_time_def read_scalar64_eq and_then_def
          Let_def)
  qed
qed

lemma sless_antisym: "\<not> (a :: 'a::len word) <s b \<Longrightarrow> \<not> b <s a \<Longrightarrow> a = b"
  using signed.less_linear by blast

lemma read_raw_data_record:
  assumes h: "remaining (r_data_header s) = raw_header_bytes t tid addr len @ hrest"
    and d: "remaining (r_data s) = bytes @ drest" and n: "unat len = length bytes"
  shows "read_raw_data s =
           (if t \<noteq> global_time s then Inl (ASSERT ''time == global_time'')
            else Inr (\<lparr>rd_data = bytes, rd_addr = addr, rd_rec_tid = tid\<rparr>,
                      s\<lparr>r_data_header := advance 28 (r_data_header s),
                        r_data := advance (length bytes) (r_data s)\<rparr>))"
proof -
  define p1 where "p1 = advance 8 (r_data_header s)"
  define p2 where "p2 = advance 4 p1"
  define p3 where "p3 = advance 8 p2"
  define p4 where "p4 = advance 8 p3"
  have h0: "remaining (r_data_header s) = to_bytes t @ (to_bytes tid @ to_bytes addr @ to_bytes len @ hrest)"
    using h by (simp add: raw_header_bytes_def)
  have r1: "remaining p1 = to_bytes tid @ (to_bytes addr @ to_bytes len @ hrest)"
    unfolding p1_def by (rule remaining_step [OF h0]) simp
  have r2: "remaining p2 = to_bytes addr @ (to_bytes len @ hrest)"
    unfolding p2_def by (rule remaining_step [OF r1]) simp
  have r3: "remaining p3 = to_bytes len @ hrest"
    unfolding p3_def by (rule remaining_step [OF r2]) simp
  have s1: "read_scalar (r_data_header s) = Inr (t, p1)"
    unfolding p1_def by (rule read_scalar64 [OF h0])
  have s2: "read_scalar p1 = Inr (tid, p2)"
    unfolding p2_def by (rule read_scalar32 [OF r1])
  have s3: "read_scalar p2 = Inr (addr, p3)"
    unfolding p3_def by (rule read_scalar64 [OF r2])
  have s4: "read_scalar p3 = Inr (len, p4)"
    unfolding p4_def by (rule read_scalar64 [OF r3])
  have s5: "cr_read (unat len) (r_data s) = Inr (bytes, advance (length bytes) (r_data s))"
    unfolding n by (rule cr_read_prefix [OF d]) simp
  have e: "p4 = advance 28 (r_data_header s)"
    unfolding p4_def p3_def p2_def p1_def by (simp add: advance_def)
  show ?thesis
    unfolding read_raw_data_def s1
    by (simp add: and_then_def s2 s3 s4 s5 e)
qed


lemma read_raw_data_mismatch:
  assumes h: "remaining (r_data_header s) = raw_header_bytes t tid addr len @ hrest"
    and t: "t \<noteq> global_time s"
  shows "read_raw_data s = Inl (ASSERT ''time == global_time'')"
proof -
  define p1 where "p1 = advance 8 (r_data_header s)"
  define p2 where "p2 = advance 4 p1"
  define p3 where "p3 = advance 8 p2"
  define p4 where "p4 = advance 8 p3"
  have h0: "remaining (r_data_header s) = to_bytes t @ (to_bytes tid @ to_bytes addr @ to_bytes len @ hrest)"
    using h by (simp add: raw_header_bytes_def)
  have r1: "remaining p1 = to_bytes tid @ (to_bytes addr @ to_bytes len @ hrest)"
    unfolding p1_def by (rule remaining_step [OF h0]) simp
  have r2: "remaining p2 = to_bytes addr @ (to_bytes len @ hrest)"
    unfolding p2_def by (rule remaining_step [OF r1]) simp
  have r3: "remaining p3 = to_bytes len @ hrest"
    unfolding p3_def by (rule remaining_step [OF r2]) simp
  have s1: "read_scalar (r_data_header s) = Inr (t, p1)"
    unfolding p1_def by (rule read_scalar64 [OF h0])
  have s2: "read_scalar p1 = Inr (tid, p2)"
    unfolding p2_def by (rule read_scalar32 [OF r1])
  have s3: "read_scalar p2 = Inr (addr, p3)"
    unfolding p3_def by (rule read_scalar64 [OF r2])
  have s4: "read_scalar p3 = Inr (len, p4)"
    unfolding p4_def by (rule read_scalar64 [OF r3])
  show ?thesis
    unfolding read_raw_data_def s1
    using t by (simp add: and_then_def s2 s3 s4)
qed

lemma raw_for_frame_mismatch:
  assumes h: "remaining (r_data_header s) = raw_header_bytes t tid addr len @ hrest"
    and f: "t = frame_time frame" and t: "t \<noteq> global_time s"
  shows "read_raw_data_for_frame frame d s = Inl (ASSERT ''time == global_time'')"
proof -
  let ?s1 = "s\<lparr>r_data_header := (r_data_header s)\<lparr>cr_saved := None\<rparr>\<rparr>"
  have h1: "remaining (r_data_header ?s1) = raw_header_bytes t tid addr len @ hrest"
    using h by (simp add: remaining_def)
  have t1: "t \<noteq> global_time ?s1" using t by simp
  have nt: "next_time (r_data_header s) = Some t"
    using h by (simp add: next_time_def raw_header_bytes_def)
  show ?thesis
    unfolding raw_for_frame_unfold nt read_raw_data_mismatch [OF h1 t1]
    using f by (simp add: and_then_def)
qed

text \<open>
  C6, as stated, fails: a reader at time 0 whose next \<open>RAW_DATA_HEADER\<close> record has
  time 1 is asked for the raw data of a frame of time 1 (the frame that \<open>peek_frame\<close>
  returns there). The header's time is the frame's time, and the call does not return
  true: it stops with the assertion of \<open>read_raw_data\<close>, which compares the header's
  time with \<open>global_time\<close>.
\<close>

theorem C6_counterexample:
  "next_time (r_data_header (reader_of (no_files\<lparr>tf_data_header := raw_header_bytes 1 7 4096 3,
                                                 tf_data := [97, 98, 99]\<rparr>))) =
     Some (frame_time sample_frame1) \<and>
   read_raw_data_for_frame sample_frame1 empty_RawData
     (reader_of (no_files\<lparr>tf_data_header := raw_header_bytes 1 7 4096 3,
                          tf_data := [97, 98, 99]\<rparr>)) =
     Inl (ASSERT ''time == global_time'')"
proof -
  let ?s = "reader_of (no_files\<lparr>tf_data_header := raw_header_bytes 1 7 4096 3,
                                 tf_data := [97, 98, 99]\<rparr>)"
  have h: "remaining (r_data_header ?s) = raw_header_bytes 1 7 4096 3 @ []"
    by (simp add: reader_of_def cr_open_def remaining_def)
  have f: "(1 :: FrameTime) = frame_time sample_frame1"
    by (simp add: sample_frame1_def TraceFrame_make_def)
  have g: "(1 :: FrameTime) \<noteq> global_time ?s"
    by (simp add: reader_of_def)
  have nt: "next_time (r_data_header ?s) = Some 1"
    unfolding next_time_def h by (simp add: raw_header_bytes_def)
  from nt f raw_for_frame_mismatch [OF h f g, of empty_RawData] show ?thesis by simp
qed

text \<open>
  C6, amended: when \<open>read_raw_data_for_frame\<close> returns, it returns true exactly if the
  next \<open>RAW_DATA_HEADER\<close> record's time is the frame's time (there is none at the end of
  the substream); when it returns false, \<open>d\<close>, both raw substreams' cursors and the
  clock are as before; a next header's time less than the frame's time stops the call
  with the assertion. With the next header's time equal to the frame's time the call goes
  on to \<open>read_raw_data\<close>, which asserts that this time is \<open>global_time\<close>: with the
  clock at that time and the record complete at the cursors the call returns true, with
  the record, both cursors past it; with the clock at another time the call stops with
  that assertion.
\<close>

theorem C6_read_raw_data_for_frame:
  "(read_raw_data_for_frame frame d s = Inr (b, d', s') \<longrightarrow>
      (b \<longleftrightarrow> next_time (r_data_header s) = Some (frame_time frame)) \<and>
      (\<not> b \<longrightarrow> d' = d \<and> remaining (r_data_header s') = remaining (r_data_header s) \<and>
               cr_pos (r_data_header s') = cr_pos (r_data_header s) \<and>
               r_data s' = r_data s \<and> global_time s' = global_time s)) \<and>
   (next_time (r_data_header s) = Some t \<and> t <s frame_time frame \<longrightarrow>
      read_raw_data_for_frame frame d s = Inl (ASSERT ''time >= frame.time()'')) \<and>
   (remaining (r_data_header s) = raw_header_bytes t tid addr len @ hrest \<and>
    remaining (r_data s) = bytes @ drest \<and> unat len = length bytes \<and>
    t = frame_time frame \<and> t = global_time s \<longrightarrow>
      read_raw_data_for_frame frame d s =
        Inr (True, \<lparr>rd_data = bytes, rd_addr = addr, rd_rec_tid = tid\<rparr>,
             s\<lparr>r_data_header := (advance 28 (r_data_header s))\<lparr>cr_saved := None\<rparr>,
               r_data := advance (length bytes) (r_data s)\<rparr>)) \<and>
   (remaining (r_data_header s) = raw_header_bytes t tid addr len @ hrest \<and>
    t = frame_time frame \<and> t \<noteq> global_time s \<longrightarrow>
      read_raw_data_for_frame frame d s = Inl (ASSERT ''time == global_time''))"
proof (intro conjI impI)
  assume a: "read_raw_data_for_frame frame d s = Inr (b, d', s')"
  show "b \<longleftrightarrow> next_time (r_data_header s) = Some (frame_time frame)"
  proof (cases "next_time (r_data_header s)")
    case None
    with a show ?thesis by (auto simp: raw_for_frame_unfold split: if_splits)
  next
    case (Some time)
    show ?thesis
    proof (cases "frame_time frame <s time")
      case True
      then have "time \<noteq> frame_time frame" by auto
      with a Some True show ?thesis by (auto simp: raw_for_frame_unfold split: if_splits)
    next
      case False
      with a Some have n: "\<not> time <s frame_time frame"
        by (auto simp: raw_for_frame_unfold split: if_splits)
      from sless_antisym [OF n False] have "time = frame_time frame" .
      with a Some False n show ?thesis
        by (auto simp: raw_for_frame_unfold and_then_def split: if_splits sum.splits)
    qed
  qed
  assume nb: "\<not> b"
  from a nb have "d' = d \<and> (s' = s \<or> s' = s\<lparr>r_data_header := (r_data_header s)\<lparr>cr_saved := None\<rparr>\<rparr>)"
    by (auto simp: raw_for_frame_unfold and_then_def split: option.splits if_splits sum.splits)
  then show "d' = d" "remaining (r_data_header s') = remaining (r_data_header s)"
    "cr_pos (r_data_header s') = cr_pos (r_data_header s)" "r_data s' = r_data s"
    "global_time s' = global_time s"
    by auto
next
  assume "next_time (r_data_header s) = Some t \<and> t <s frame_time frame"
  then show "read_raw_data_for_frame frame d s = Inl (ASSERT ''time >= frame.time()'')"
    by (simp add: raw_for_frame_unfold)
next
  assume a: "remaining (r_data_header s) = raw_header_bytes t tid addr len @ hrest \<and>
    remaining (r_data s) = bytes @ drest \<and> unat len = length bytes \<and>
    t = frame_time frame \<and> t = global_time s"
  let ?s1 = "s\<lparr>r_data_header := (r_data_header s)\<lparr>cr_saved := None\<rparr>\<rparr>"
  from a have h: "remaining (r_data_header ?s1) = raw_header_bytes t tid addr len @ hrest"
    and d: "remaining (r_data ?s1) = bytes @ drest" and n: "unat len = length bytes"
    and t: "t = frame_time frame" "t = global_time s"
    by auto
  have nt: "next_time (r_data_header s) = Some t"
    using a by (simp add: next_time_def raw_header_bytes_def)
  have "read_raw_data ?s1 = Inr (\<lparr>rd_data = bytes, rd_addr = addr, rd_rec_tid = tid\<rparr>,
          ?s1\<lparr>r_data_header := advance 28 (r_data_header ?s1),
                r_data := advance (length bytes) (r_data ?s1)\<rparr>)"
    unfolding read_raw_data_record [OF h d n] using t by simp
  then show "read_raw_data_for_frame frame d s =
        Inr (True, \<lparr>rd_data = bytes, rd_addr = addr, rd_rec_tid = tid\<rparr>,
             s\<lparr>r_data_header := (advance 28 (r_data_header s))\<lparr>cr_saved := None\<rparr>,
               r_data := advance (length bytes) (r_data s)\<rparr>)"
    unfolding raw_for_frame_unfold nt using t
    by (simp add: and_then_def advance_saved_upd)
next
  assume a: "remaining (r_data_header s) = raw_header_bytes t tid addr len @ hrest \<and>
    t = frame_time frame \<and> t \<noteq> global_time s"
  then have h: "remaining (r_data_header s) = raw_header_bytes t tid addr len @ hrest"
    and f: "t = frame_time frame" and g: "t \<noteq> global_time s" by blast+
  show "read_raw_data_for_frame frame d s = Inl (ASSERT ''time == global_time'')"
    by (rule raw_for_frame_mismatch [OF h f g])
qed



section \<open>Looking ahead: results\<close>

lemma peek_frame_next:
  assumes p: "peek_frame X s = Inr (f, sp)"
  shows "sp = s\<lparr>r_events := (r_events s)\<lparr>cr_saved := None\<rparr>\<rparr> \<and>
         (at_end s \<longrightarrow> f = TraceFrame_default) \<and>
         (\<not> at_end s \<longrightarrow>
            (\<exists>s'. read_frame X sp = Inr (f, s') \<and> global_time s' = global_time s + 1))"
proof (cases "at_end s")
  case True
  from peek_frame_at_end [OF True, of X] p show ?thesis using True by simp
next
  case False
  let ?s1 = "s\<lparr>r_events := save_state (r_events s)\<rparr>"
  have ne: "\<not> at_end ?s1" using False by (simp add: at_end_def cr_at_end_def)
  from p ne obtain s2 where r: "read_frame X ?s1 = Inr (f, s2)"
    unfolding peek_frame_def Let_def
    by (auto simp: and_then_def split: sum.splits)
  have e: "?s1\<lparr>r_events := (r_events ?s1)\<lparr>cr_saved := None\<rparr>\<rparr> =
           s\<lparr>r_events := (r_events s)\<lparr>cr_saved := None\<rparr>\<rparr>"
    by (simp add: save_state_def)
  from read_frame_saved [OF r, of None]
  have r': "read_frame X (s\<lparr>r_events := (r_events s)\<lparr>cr_saved := None\<rparr>\<rparr>) =
              Inr (f, s2\<lparr>r_events := (r_events s2)\<lparr>cr_saved := None\<rparr>\<rparr>)"
    unfolding e .
  from peek_frame_Inr [OF r'] have "peek_frame X (s\<lparr>r_events := (r_events s)\<lparr>cr_saved := None\<rparr>\<rparr>) =
     Inr (f, s\<lparr>r_events := (r_events s)\<lparr>cr_saved := None\<rparr>\<rparr>)" by simp
  from read_frame_effect [OF r] have g: "global_time s2 = global_time s + 1" by auto
  have sp: "sp = s\<lparr>r_events := (r_events s)\<lparr>cr_saved := None\<rparr>\<rparr>"
  proof -
    from read_frame_effect [OF r] obtain n where
      s2: "s2 = ?s1\<lparr>r_events := advance n (r_events ?s1), global_time := global_time ?s1 + 1\<rparr>"
      by auto
    from p ne r have "sp = (s2\<lparr>r_events := restore_state (r_events s2)\<rparr>)\<lparr>global_time := global_time ?s1\<rparr>"
      unfolding peek_frame_def Let_def by (simp add: and_then_def)
    then show ?thesis unfolding s2 by (simp add: save_restore)
  qed
  from sp r' g False show ?thesis by auto
qed

text \<open>
  C7: a \<open>peek_frame\<close> that returns leaves the reader as it was (only the checkpoint slot
  of \<open>EVENTS\<close> is cleared, so a reader without a pending checkpoint is unchanged):
  \<open>global_time\<close> and the \<open>EVENTS\<close> cursor are as before, and, unless \<open>EVENTS\<close> is
  exhausted, the \<open>read_frame\<close> after it returns the frame that \<open>peek_frame\<close> has
  returned and has advanced \<open>global_time\<close> by one. And where \<open>read_frame\<close> returns a
  frame, \<open>peek_frame\<close> does return, with that frame.
\<close>

theorem C7_peek_frame:
  "(read_frame X s = Inr (f, s') \<longrightarrow>
      peek_frame X s = Inr (f, s\<lparr>r_events := (r_events s)\<lparr>cr_saved := None\<rparr>\<rparr>) \<and>
      global_time (s\<lparr>r_events := (r_events s)\<lparr>cr_saved := None\<rparr>\<rparr>) = global_time s \<and>
      cr_pos (r_events (s\<lparr>r_events := (r_events s)\<lparr>cr_saved := None\<rparr>\<rparr>)) = cr_pos (r_events s) \<and>
      read_frame X (s\<lparr>r_events := (r_events s)\<lparr>cr_saved := None\<rparr>\<rparr>) =
        Inr (f, s'\<lparr>r_events := (r_events s')\<lparr>cr_saved := None\<rparr>\<rparr>) \<and>
      global_time (s'\<lparr>r_events := (r_events s')\<lparr>cr_saved := None\<rparr>\<rparr>) = global_time s + 1) \<and>
   (peek_frame X s = Inr (g, sp) \<longrightarrow>
      sp = s\<lparr>r_events := (r_events s)\<lparr>cr_saved := None\<rparr>\<rparr> \<and>
      global_time sp = global_time s \<and>
      cr_pos (r_events sp) = cr_pos (r_events s) \<and>
      remaining (r_events sp) = remaining (r_events s) \<and>
      (cr_saved (r_events s) = None \<longrightarrow> sp = s) \<and>
      (\<not> at_end s \<longrightarrow>
         (\<exists>s''. read_frame X sp = Inr (g, s'') \<and> global_time s'' = global_time s + 1)))"
proof (intro conjI impI)
  assume a: "read_frame X s = Inr (f, s')"
  show "peek_frame X s = Inr (f, s\<lparr>r_events := (r_events s)\<lparr>cr_saved := None\<rparr>\<rparr>)"
    using a by (rule peek_frame_Inr)
  show "read_frame X (s\<lparr>r_events := (r_events s)\<lparr>cr_saved := None\<rparr>\<rparr>) =
           Inr (f, s'\<lparr>r_events := (r_events s')\<lparr>cr_saved := None\<rparr>\<rparr>)"
    by (simp add: read_frame_saved a)
  from read_frame_effect [OF a]
  show "global_time (s'\<lparr>r_events := (r_events s')\<lparr>cr_saved := None\<rparr>\<rparr>) = global_time s + 1"
    by auto
next
  show "global_time (s\<lparr>r_events := (r_events s)\<lparr>cr_saved := None\<rparr>\<rparr>) = global_time s" by simp
  show "cr_pos (r_events (s\<lparr>r_events := (r_events s)\<lparr>cr_saved := None\<rparr>\<rparr>)) = cr_pos (r_events s)"
    by simp
next
  assume p: "peek_frame X s = Inr (g, sp)"
  note n = peek_frame_next [OF p]
  from n show sp: "sp = s\<lparr>r_events := (r_events s)\<lparr>cr_saved := None\<rparr>\<rparr>" by blast
  show "global_time sp = global_time s" unfolding sp by simp
  show "cr_pos (r_events sp) = cr_pos (r_events s)" unfolding sp by simp
  show "remaining (r_events sp) = remaining (r_events s)" unfolding sp by (simp add: remaining_def)
  {
    assume "cr_saved (r_events s) = None"
    then show "sp = s" unfolding sp by simp
  }
  {
    assume "\<not> at_end s"
    with n show "\<exists>s''. read_frame X sp = Inr (g, s'') \<and> global_time s'' = global_time s + 1"
      by blast
  }
qed

lemma sample_frame1_read:
  "read_frame sample_externals (reader_of (no_files\<lparr>tf_events := frame_bytes sample_externals sample_frame1\<rparr>)) =
     Inr (sample_frame1,
          (reader_of (no_files\<lparr>tf_events := frame_bytes sample_externals sample_frame1\<rparr>))
            \<lparr>r_events := advance 32 (cr_open (frame_bytes sample_externals sample_frame1)),
             global_time := 1\<rparr>)"
proof -
  let ?bi = "\<lparr>bi_global_time = 1, bi_tid = 42, bi_ev = 0, bi_ticks = 0, bi_monotonic_sec = 0\<rparr> :: BasicInfo"
  let ?s = "reader_of (no_files\<lparr>tf_events := frame_bytes sample_externals sample_frame1\<rparr>)"
  have r: "remaining (r_events ?s) = BasicInfo_bytes ?bi @ []"
    by (simp add: reader_of_def cr_open_def remaining_def frame_bytes_def sample_frame1_def
        TraceFrame_make_def sample_externals_def)
  have e: "\<not> has_exec_info sample_externals (bi_ev ?bi)"
    by (simp add: sample_externals_def)
  show ?thesis
    unfolding read_frame_no_exec [OF r e]
    by (simp add: finish_frame_def reader_of_def sample_frame1_def TraceFrame_make_def)
qed

text \<open>
  On a trace of one frame, a new reader peeks that frame and is unchanged, and the
  \<open>read_frame\<close> after it returns that frame with the clock at 1.
\<close>

theorem C7_peek_frame_witness:
  "peek_frame sample_externals
     (reader_of (no_files\<lparr>tf_events := frame_bytes sample_externals sample_frame1\<rparr>)) =
   Inr (sample_frame1, reader_of (no_files\<lparr>tf_events := frame_bytes sample_externals sample_frame1\<rparr>)) \<and>
   (\<exists>s''. read_frame sample_externals
            (reader_of (no_files\<lparr>tf_events := frame_bytes sample_externals sample_frame1\<rparr>)) =
            Inr (sample_frame1, s'') \<and> global_time s'' = 1)"
proof -
  let ?r = "reader_of (no_files\<lparr>tf_events := frame_bytes sample_externals sample_frame1\<rparr>)"
  have e: "?r\<lparr>r_events := (r_events ?r)\<lparr>cr_saved := None\<rparr>\<rparr> = ?r"
    by (simp add: reader_of_def cr_open_def)
  have p: "peek_frame sample_externals ?r = Inr (sample_frame1, ?r)"
    using C7_peek_frame [THEN conjunct1, THEN mp, OF sample_frame1_read] unfolding e by blast
  have ne: "\<not> at_end ?r" by (rule read_frame_not_at_end [OF sample_frame1_read])
  have z: "global_time ?r = 0" by (simp add: reader_of_def)
  from C7_peek_frame [THEN conjunct2, THEN mp, OF p] ne
  have "\<exists>s''. read_frame sample_externals ?r = Inr (sample_frame1, s'') \<and>
              global_time s'' = global_time ?r + 1"
    by blast
  with p z show ?thesis by simp
qed

text \<open>
  C10: with \<open>EVENTS\<close> exhausted, \<open>peek_frame\<close> returns the default frame, and
  \<open>global_time\<close> and the \<open>EVENTS\<close> cursor are unchanged.
\<close>

theorem C10_peek_frame_at_end:
  assumes "at_end s"
  shows "peek_frame X s = Inr (TraceFrame_default, s\<lparr>r_events := (r_events s)\<lparr>cr_saved := None\<rparr>\<rparr>) \<and>
         global_time (s\<lparr>r_events := (r_events s)\<lparr>cr_saved := None\<rparr>\<rparr>) = global_time s \<and>
         cr_pos (r_events (s\<lparr>r_events := (r_events s)\<lparr>cr_saved := None\<rparr>\<rparr>)) = cr_pos (r_events s)"
  using peek_frame_at_end [OF assms] by simp

text \<open>On an empty trace a new reader peeks the default frame and is unchanged.\<close>

theorem C10_peek_frame_at_end_witness:
  "peek_frame sample_externals (reader_of no_files) = Inr (TraceFrame_default, reader_of no_files)"
proof -
  have "at_end (reader_of no_files)"
    by (simp add: at_end_def cr_at_end_def remaining_def reader_of_def no_files_def cr_open_def)
  from C10_peek_frame_at_end [OF this, of sample_externals] show ?thesis
    by (simp add: reader_of_def cr_open_def)
qed

section \<open>Instances\<close>

lemma TraceReader_new_sample:
  assumes "tf_version files = Open_ok (''85'' @ nl @ rest)"
  shows "TraceReader_new (\<lambda>rest. Some sample_header) ''/t'' files = Inr (reader_of files)"
proof -
  have v: "show_int 85 = ''85''" by code_simp
  have parse: "strtol (c_str ''85'') = (85, [])"
    using strtol_show_int [of 85] c_str_show_int [of 85]
    by (simp add: v LONG_MIN_def LONG_MAX_def)
  have line: "read_version_str (''85'' @ nl @ rest) [] = Some (''85'', rest)"
    using read_version_line_show_int [of 85 rest] by (simp add: v)
  show ?thesis
    by (simp only: TraceReader_new_def assms version_fd.case line option.case prod.case parse
        Let_def)
      (simp add: TRACE_VERSION_def sample_header_def reader_of_def)
qed

text \<open>
  A trace of one frame: the reader starts at 0 and is at 1 after reading it; a reader
  whose clock is already at 1 fails the assertion on that frame.
\<close>

theorem C4_reader_clock_witness:
  "TraceReader_new (\<lambda>rest. Some sample_header) ''/t''
     (no_files\<lparr>tf_version := Open_ok (''85'' @ nl),
               tf_events := frame_bytes sample_externals sample_frame1\<rparr>) =
     Inr (reader_of (no_files\<lparr>tf_events := frame_bytes sample_externals sample_frame1\<rparr>)) \<and>
   global_time (reader_of (no_files\<lparr>tf_events := frame_bytes sample_externals sample_frame1\<rparr>)) = 0 \<and>
   read_frames sample_externals 1
     (reader_of (no_files\<lparr>tf_events := frame_bytes sample_externals sample_frame1\<rparr>)) =
     Inr ([sample_frame1],
          (reader_of (no_files\<lparr>tf_events := frame_bytes sample_externals sample_frame1\<rparr>))
            \<lparr>r_events := advance 32 (cr_open (frame_bytes sample_externals sample_frame1)),
             global_time := 1\<rparr>) \<and>
   read_frame sample_externals
     (at_time_1 (reader_of (no_files\<lparr>tf_events := frame_bytes sample_externals sample_frame1\<rparr>))) =
     Inl (ASSERT ''time() == frame.time()'')"
proof -
  let ?F = "no_files\<lparr>tf_version := Open_ok (''85'' @ nl),
               tf_events := frame_bytes sample_externals sample_frame1\<rparr>"
  let ?r = "reader_of (no_files\<lparr>tf_events := frame_bytes sample_externals sample_frame1\<rparr>)"
  let ?r1 = "?r\<lparr>r_events := advance 32 (cr_open (frame_bytes sample_externals sample_frame1)),
             global_time := 1\<rparr>"
  let ?bi = "\<lparr>bi_global_time = 1, bi_tid = 42, bi_ev = 0, bi_ticks = 0, bi_monotonic_sec = 0\<rparr> :: BasicInfo"
  have e: "reader_of ?F = ?r" by (simp add: reader_of_def)
  have "TraceReader_new (\<lambda>rest. Some sample_header) ''/t'' ?F = Inr (reader_of ?F)"
    by (rule TraceReader_new_sample [of ?F "[]"]) simp
  then have n: "TraceReader_new (\<lambda>rest. Some sample_header) ''/t'' ?F = Inr ?r"
    unfolding e .
  have f: "read_frames sample_externals 1 ?r = Inr ([sample_frame1], ?r1)"
    by (simp add: sample_frame1_read and_then_def)
  note T = C4_reader_clock [of "\<lambda>rest. Some sample_header" "''/t''" ?F ?r sample_externals
      "at_time_1 ?r" sample_frame1 ?r1 ?bi "[]" 1 "[sample_frame1]" ?r1]
  from T [THEN conjunct1] n have z: "global_time ?r = 0" by simp
  have pre: "remaining (r_events (at_time_1 ?r)) = BasicInfo_bytes ?bi @ [] \<and>
     \<not> has_exec_info sample_externals (bi_ev ?bi) \<and>
     bi_global_time ?bi \<noteq> global_time (at_time_1 ?r) + 1"
    by (simp add: at_time_1_def reader_of_def cr_open_def remaining_def frame_bytes_def
        sample_frame1_def TraceFrame_make_def sample_externals_def)
  from T [THEN conjunct2, THEN conjunct2, THEN conjunct1, THEN mp, OF pre]
  have a: "read_frame sample_externals (at_time_1 ?r) = Inl (ASSERT ''time() == frame.time()'')" .
  from n z f a show ?thesis by simp
qed

text \<open>
  The raw pairing scenario of the specification: after the frame at time 1, the record
  written at time 1 is returned; at the end of the substream the call returns false and
  changes nothing.
\<close>

theorem C6_read_raw_data_for_frame_witness:
  "read_raw_data_for_frame sample_frame1 empty_RawData
     (at_time_1 (reader_of (no_files\<lparr>tf_data_header := raw_header_bytes 1 7 4096 3,
                                        tf_data := [97, 98, 99]\<rparr>))) =
     Inr (True, \<lparr>rd_data = [97, 98, 99], rd_addr = 4096, rd_rec_tid = 7\<rparr>,
          (at_time_1 (reader_of (no_files\<lparr>tf_data_header := raw_header_bytes 1 7 4096 3,
                                        tf_data := [97, 98, 99]\<rparr>)))
            \<lparr>r_data_header := advance 28 (cr_open (raw_header_bytes 1 7 4096 3)),
             r_data := advance 3 (cr_open [97, 98, 99])\<rparr>) \<and>
   next_time (r_data_header (at_time_1 (reader_of no_files))) \<noteq> Some (frame_time sample_frame1) \<and>
   read_raw_data_for_frame sample_frame1 empty_RawData (at_time_1 (reader_of no_files)) =
     Inr (False, empty_RawData, at_time_1 (reader_of no_files))"
proof -
  let ?s = "at_time_1 (reader_of (no_files\<lparr>tf_data_header := raw_header_bytes 1 7 4096 3,
                                        tf_data := [97, 98, 99]\<rparr>))"
  have h: "remaining (r_data_header ?s) = raw_header_bytes 1 7 4096 3 @ []"
    by (simp add: at_time_1_def reader_of_def cr_open_def remaining_def)
  have d: "remaining (r_data ?s) = [97, 98, 99] @ []"
    by (simp add: at_time_1_def reader_of_def cr_open_def remaining_def)
  have t: "frame_time sample_frame1 = 1" "global_time ?s = 1"
    by (simp_all add: sample_frame1_def TraceFrame_make_def at_time_1_def)
  have pre: "remaining (r_data_header ?s) = raw_header_bytes 1 7 4096 3 @ [] \<and>
      remaining (r_data ?s) = [97, 98, 99] @ [] \<and> unat (3 :: 64 word) = length [97, 98, 99 :: byte] \<and>
      1 = frame_time sample_frame1 \<and> 1 = global_time ?s"
    using h d t by simp
  have first: "read_raw_data_for_frame sample_frame1 empty_RawData ?s =
     Inr (True, \<lparr>rd_data = [97, 98, 99], rd_addr = 4096, rd_rec_tid = 7\<rparr>,
          ?s\<lparr>r_data_header := (advance 28 (r_data_header ?s))\<lparr>cr_saved := None\<rparr>,
             r_data := advance (length [97, 98, 99 :: byte]) (r_data ?s)\<rparr>)"
    by (rule C6_read_raw_data_for_frame [of sample_frame1 empty_RawData ?s True empty_RawData ?s
          1 7 4096 3 "[]" "[97, 98, 99]" "[]", THEN conjunct2, THEN conjunct2, THEN conjunct1,
          THEN mp, OF pre])
  let ?e = "at_time_1 (reader_of no_files)"
  have second: "read_raw_data_for_frame sample_frame1 empty_RawData ?e =
     Inr (False, empty_RawData, ?e)"
    by (simp add: read_raw_data_for_frame_def cr_at_end_def remaining_def at_time_1_def
        reader_of_def no_files_def cr_open_def)
  have nt: "next_time (r_data_header ?e) \<noteq> Some (frame_time sample_frame1)"
    by (simp add: next_time_def remaining_def at_time_1_def reader_of_def no_files_def cr_open_def)
  from first second nt show ?thesis
    by (simp add: at_time_1_def reader_of_def cr_open_def advance_def)
qed



section \<open>Recording and replay: results\<close>


lemma app_nothing [simp]: "app nothing a = a" "app a nothing = a"
  by (simp_all add: app_def nothing_def)



































end
